theory Spec2Isabelle
  imports Complex_Main "HOL-Library.Multiset" "HOL-Library.AList" "HOL-Library.Log_Nat"
begin

section \<open>JavaScript values and coercions used by the handlers\<close>

text \<open>
  A JavaScript number is a double: \<open>NaN\<close>, \<open>Infinity\<close>, \<open>-Infinity\<close>, or a finite
  double, held as the rational it denotes. The sign of zero is not tracked (it is not
  observable in a JSON response, which prints \<open>-0\<close> as \<open>0\<close>).
\<close>

datatype jsnum = NaN | PosInf | NegInf | Num rat

text \<open>
  The double nearest to a rational (round to nearest, ties to even): every arithmetic
  operation and every conversion from a string returns the exact result rounded this
  way. \<open>ilog2 a\<close> is the exponent \<open>e\<close> with \<open>2^e \<le> a < 2^(e+1)\<close>; a double has 53
  significant bits, so the spacing of doubles around \<open>a\<close> is \<open>2^(e - 52)\<close>, and
  \<open>2^(-1074)\<close> below the normal range. A rounded magnitude of \<open>2^1024\<close> or more is
  an infinity.
\<close>

definition ilog2 :: "rat \<Rightarrow> int" where
  "ilog2 a =
     (let k = bitlen (fst (quotient_of a)) - bitlen (snd (quotient_of a))
      in if 2 powi k \<le> a then k else k - 1)"

definition round_half_even :: "rat \<Rightarrow> int" where
  "round_half_even y =
     (let f = \<lfloor>y\<rfloor>; d = y - of_int f
      in if d < 1 / 2 then f else if 1 / 2 < d then f + 1 else if even f then f else f + 1)"

definition double_of :: "rat \<Rightarrow> jsnum" where
  "double_of r =
     (if r = 0 then Num 0
      else
        (let a = \<bar>r\<bar>;
             u = 2 powi (max (ilog2 a) (- 1022) - 52);
             v = of_int (round_half_even (a / u)) * u
         in if 2 powi 1024 \<le> v then (if 0 < r then PosInf else NegInf)
            else Num (if 0 < r then v else - v)))"

text \<open>
  The scalar values a JSON request body, a stored document field or a local variable of
  a handler can hold. \<open>JOid\<close> is a driver \<open>ObjectId\<close> (its 12 bytes read as a number),
  \<open>JDate\<close> a \<open>Date\<close> (milliseconds). Nested objects and arrays as field values of a
  request body are outside the model.
\<close>

datatype jsval =
    JUndefined
  | JNull
  | JBool bool
  | JNum jsnum
  | JStr string
  | JOid int
  | JDate int

type_synonym doc = "(string \<times> jsval) list"

text \<open>Property read \<open>obj.k\<close>: a missing property reads as \<open>undefined\<close>.\<close>

definition getprop :: "doc \<Rightarrow> string \<Rightarrow> jsval" where
  "getprop obj k = (case map_of obj k of None \<Rightarrow> JUndefined | Some v \<Rightarrow> v)"

text \<open>Truthiness, as used by \<open>if (x)\<close>, \<open>!x\<close> and \<open>x || y\<close>.\<close>

fun truthy :: "jsval \<Rightarrow> bool" where
  "truthy JUndefined = False"
| "truthy JNull = False"
| "truthy (JBool b) = b"
| "truthy (JNum NaN) = False"
| "truthy (JNum (Num r)) = (r \<noteq> 0)"
| "truthy (JNum _) = True"
| "truthy (JStr s) = (s \<noteq> [])"
| "truthy (JOid _) = True"
| "truthy (JDate _) = True"

definition js_or :: "jsval \<Rightarrow> jsval \<Rightarrow> jsval" where
  "js_or a b = (if truthy a then a else b)"

subsection \<open>Strings to numbers\<close>

text \<open>White space: the ASCII part of what the language skips around a numeric string.\<close>

definition is_ws :: "char \<Rightarrow> bool" where
  "is_ws c = (c \<in> set [CHR '' '', CHR 0x09, CHR 0x0A, CHR 0x0B, CHR 0x0C, CHR 0x0D])"

definition is_digit :: "char \<Rightarrow> bool" where
  "is_digit c = (c \<in> set ''0123456789'')"

definition digit_val :: "char \<Rightarrow> nat" where
  "digit_val c = of_char c - 48"

definition hex_val :: "char \<Rightarrow> nat option" where
  "hex_val c =
     (if is_digit c then Some (digit_val c)
      else if c \<in> set ''abcdef'' then Some (of_char c - 97 + 10)
      else if c \<in> set ''ABCDEF'' then Some (of_char c - 65 + 10)
      else None)"

definition in_radix :: "nat \<Rightarrow> char \<Rightarrow> bool" where
  "in_radix b c = (case hex_val c of None \<Rightarrow> False | Some d \<Rightarrow> d < b)"

definition radix_num :: "nat \<Rightarrow> string \<Rightarrow> int" where
  "radix_num b s =
     foldl (\<lambda>a c. int b * a + (case hex_val c of None \<Rightarrow> 0 | Some d \<Rightarrow> int d)) 0 s"

definition digits_val :: "string \<Rightarrow> int" where
  "digits_val s = radix_num 10 s"

text \<open>
  \<open>parseInt(s, radix)\<close> for the two call shapes of the source, \<open>parseInt(s, 10)\<close>
  (\<open>Some 10\<close>) and \<open>parseInt(s)\<close> (\<open>None\<close>): leading white space is skipped, a sign is
  read, then the longest run of digits of the radix; anything after it is ignored. No
  digit gives \<open>NaN\<close>. Without a radix, a \<open>0x\<close> prefix selects radix 16, anything
  else radix 10. The result is the double nearest to the integer read.
\<close>

definition parseInt :: "string \<Rightarrow> nat option \<Rightarrow> jsnum" where
  "parseInt s radix =
     (let t = dropWhile is_ws s;
          neg = (t \<noteq> [] \<and> hd t = CHR ''-'');
          u = (if t \<noteq> [] \<and> (hd t = CHR ''-'' \<or> hd t = CHR ''+'') then tl t else t);
          hexp = (radix = None \<and> 2 \<le> length u \<and> hd u = CHR ''0'' \<and> hd (tl u) \<in> set ''xX'');
          b = (if hexp then 16 else case radix of None \<Rightarrow> 10 | Some r \<Rightarrow> r);
          v = (if hexp then tl (tl u) else u);
          ds = takeWhile (in_radix b) v
      in if ds = [] then NaN
         else double_of (if neg then - of_int (radix_num b ds) else of_int (radix_num b ds)))"

text \<open>
  The exponent part of a decimal literal: \<open>e\<close> or \<open>E\<close>, an optional sign, at least one
  digit, nothing after. An empty rest is the exponent 0.
\<close>

definition exponent :: "string \<Rightarrow> int option" where
  "exponent s =
     (if s = [] then Some 0
      else if hd s = CHR ''e'' \<or> hd s = CHR ''E'' then
        (let r = tl s;
             neg = (r \<noteq> [] \<and> hd r = CHR ''-'');
             ds = (if r \<noteq> [] \<and> (hd r = CHR ''-'' \<or> hd r = CHR ''+'') then tl r else r)
         in if ds \<noteq> [] \<and> list_all is_digit ds
            then Some (if neg then - digits_val ds else digits_val ds)
            else None)
      else None)"

definition pow10 :: "int \<Rightarrow> rat" where
  "pow10 e = (if 0 \<le> e then 10 ^ nat e else 1 / 10 ^ nat (- e))"

text \<open>An unsigned decimal literal: \<open>12\<close>, \<open>12.\<close>, \<open>12.5\<close>, \<open>.5\<close>, each with an optional exponent.\<close>

definition decimal_literal :: "string \<Rightarrow> rat option" where
  "decimal_literal s =
     (let ip = takeWhile is_digit s;
          r1 = dropWhile is_digit s;
          dot = (r1 \<noteq> [] \<and> hd r1 = CHR ''.'');
          fp = (if dot then takeWhile is_digit (tl r1) else []);
          r2 = (if dot then dropWhile is_digit (tl r1) else r1)
      in if ip = [] \<and> fp = [] then None
         else (case exponent r2 of
                 None \<Rightarrow> None
               | Some e \<Rightarrow>
                   Some ((of_int (digits_val ip) + of_int (digits_val fp) / 10 ^ length fp)
                         * pow10 e)))"

definition prefixed :: "string \<Rightarrow> int option" where
  "prefixed t =
     (if length t < 3 \<or> hd t \<noteq> CHR ''0'' then None
      else let m = hd (tl t); ds = tl (tl t);
               b = (if m \<in> set ''xX'' then 16 else if m \<in> set ''oO'' then 8 else 2)
           in if m \<in> set ''xXoObB'' \<and> list_all (in_radix b) ds
              then Some (radix_num b ds) else None)"

definition is_prefixed :: "string \<Rightarrow> bool" where
  "is_prefixed t =
     (2 \<le> length t \<and> hd t = CHR ''0'' \<and> hd (tl t) \<in> set ''xXoObB'')"

definition signed_literal :: "string \<Rightarrow> jsnum" where
  "signed_literal u =
     (if u = ''Infinity'' then PosInf
      else case decimal_literal u of None \<Rightarrow> NaN | Some r \<Rightarrow> double_of r)"

definition js_neg :: "jsnum \<Rightarrow> jsnum" where
  "js_neg x = (case x of NaN \<Rightarrow> NaN | PosInf \<Rightarrow> NegInf | NegInf \<Rightarrow> PosInf | Num r \<Rightarrow> Num (- r))"

text \<open>
  The coercion of a string to a number (\<open>Number(s)\<close>, applied by \<open>-\<close>, \<open>*\<close> and \<open>/\<close>):
  white space is trimmed on both sides, the empty string is 0, and the whole rest must
  be one numeric literal, whose value is rounded to the nearest double.
\<close>

definition toNumber :: "string \<Rightarrow> jsnum" where
  "toNumber s =
     (let t = rev (dropWhile is_ws (rev (dropWhile is_ws s)))
      in if t = [] then Num 0
         else if is_prefixed t then (case prefixed t of None \<Rightarrow> NaN | Some n \<Rightarrow> double_of (of_int n))
         else if hd t = CHR ''-'' then js_neg (signed_literal (tl t))
         else if hd t = CHR ''+'' then signed_literal (tl t)
         else signed_literal t)"

subsection \<open>Arithmetic on numbers\<close>

text \<open>Subtraction, multiplication and division of doubles: the exact result, rounded.\<close>

definition js_sub :: "jsnum \<Rightarrow> jsnum \<Rightarrow> jsnum" where
  "js_sub a b =
     (case (a, b) of
        (NaN, _) \<Rightarrow> NaN
      | (_, NaN) \<Rightarrow> NaN
      | (Num x, Num y) \<Rightarrow> double_of (x - y)
      | (PosInf, PosInf) \<Rightarrow> NaN
      | (NegInf, NegInf) \<Rightarrow> NaN
      | (PosInf, _) \<Rightarrow> PosInf
      | (NegInf, _) \<Rightarrow> NegInf
      | (_, PosInf) \<Rightarrow> NegInf
      | (_, NegInf) \<Rightarrow> PosInf)"

definition js_sign :: "jsnum \<Rightarrow> int" where
  "js_sign a =
     (case a of NaN \<Rightarrow> 0 | PosInf \<Rightarrow> 1 | NegInf \<Rightarrow> - 1
      | Num x \<Rightarrow> (if 0 < x then 1 else if x < 0 then - 1 else 0))"

definition js_mul :: "jsnum \<Rightarrow> jsnum \<Rightarrow> jsnum" where
  "js_mul a b =
     (case (a, b) of
        (NaN, _) \<Rightarrow> NaN
      | (_, NaN) \<Rightarrow> NaN
      | (Num x, Num y) \<Rightarrow> double_of (x * y)
      | _ \<Rightarrow> (if js_sign a * js_sign b = 0 then NaN
              else if js_sign a * js_sign b > 0 then PosInf else NegInf))"

definition js_div :: "jsnum \<Rightarrow> jsnum \<Rightarrow> jsnum" where
  "js_div a b =
     (case (a, b) of
        (NaN, _) \<Rightarrow> NaN
      | (_, NaN) \<Rightarrow> NaN
      | (Num x, Num y) \<Rightarrow>
          (if y \<noteq> 0 then double_of (x / y)
           else if x = 0 then NaN else if x > 0 then PosInf else NegInf)
      | (Num x, _) \<Rightarrow> Num 0
      | (_, Num y) \<Rightarrow> (if js_sign a * (if y < 0 then - 1 else 1) > 0 then PosInf else NegInf)
      | _ \<Rightarrow> NaN)"

definition Math_ceil :: "jsnum \<Rightarrow> jsnum" where
  "Math_ceil a = (case a of Num x \<Rightarrow> Num (of_int \<lceil>x\<rceil>) | _ \<Rightarrow> a)"

section \<open>The store collaborator\<close>

text \<open>
  The database driver is not part of the repository; the model below follows its
  documented behaviour for the calls the handlers make. A collection is the list of its
  documents in insertion order, a document an association list of fields.
\<close>

datatype error =
    BSONError
  | MongoServerError
  | BcryptArgumentError
  | JwtSecretError
  | JwtOptionError

record store =
  users :: "doc list"
  products :: "doc list"
  next_oid :: int

text \<open>
  What the driver writes for a value: with its default options \<open>undefined\<close> is
  serialised as \<open>null\<close>, in documents, in \<open>$set\<close> and in filters alike.
\<close>

definition bson :: "jsval \<Rightarrow> jsval" where
  "bson v = (if v = JUndefined then JNull else v)"

text \<open>An equality filter: \<open>null\<close> matches a field that is \<open>null\<close> or missing.\<close>

definition field_matches :: "doc \<Rightarrow> string \<times> jsval \<Rightarrow> bool" where
  "field_matches d kv =
     (if bson (snd kv) = JNull then map_of d (fst kv) = None \<or> map_of d (fst kv) = Some JNull
      else map_of d (fst kv) = Some (snd kv))"

definition matches :: "doc \<Rightarrow> doc \<Rightarrow> bool" where
  "matches query d = list_all (field_matches d) query"

definition countDocuments :: "doc list \<Rightarrow> doc \<Rightarrow> nat" where
  "countDocuments coll query = length (filter (matches query) coll)"

definition findOne :: "doc list \<Rightarrow> doc \<Rightarrow> doc option" where
  "findOne coll query = List.find (matches query) coll"

text \<open>
  \<open>new ObjectId(id)\<close> for a string: 24 hexadecimal characters give an identifier,
  anything else throws. (Drivers before version 5 of the BSON library also accept any
  string of 12 bytes.)
\<close>

definition ObjectId :: "string \<Rightarrow> error + int" where
  "ObjectId s =
     (if length s = 24 \<and> list_all (in_radix 16) s then Inr (radix_num 16 s)
      else Inl BSONError)"

subsection \<open>Sort order\<close>

text \<open>
  The comparison of two field values: first by type bracket (null and missing, numbers,
  strings, identifiers, booleans, dates), then inside the bracket. \<open>NaN\<close> is below every
  number; strings compare byte by byte.
\<close>

fun bson_rank :: "jsval \<Rightarrow> nat" where
  "bson_rank JUndefined = 1"
| "bson_rank JNull = 1"
| "bson_rank (JNum _) = 2"
| "bson_rank (JStr _) = 3"
| "bson_rank (JOid _) = 4"
| "bson_rank (JBool _) = 5"
| "bson_rank (JDate _) = 6"

fun num_lt :: "jsnum \<Rightarrow> jsnum \<Rightarrow> bool" where
  "num_lt (Num x) (Num y) = (x < y)"
| "num_lt _ NaN = False"
| "num_lt NaN _ = True"
| "num_lt _ NegInf = False"
| "num_lt NegInf _ = True"
| "num_lt PosInf _ = False"
| "num_lt _ PosInf = True"

fun str_lt :: "string \<Rightarrow> string \<Rightarrow> bool" where
  "str_lt _ [] = False"
| "str_lt [] (y # ys) = True"
| "str_lt (x # xs) (y # ys) =
     ((of_char x :: nat) < of_char y \<or> (x = y \<and> str_lt xs ys))"

fun same_bracket_lt :: "jsval \<Rightarrow> jsval \<Rightarrow> bool" where
  "same_bracket_lt (JNum a) (JNum b) = num_lt a b"
| "same_bracket_lt (JStr a) (JStr b) = str_lt a b"
| "same_bracket_lt (JOid a) (JOid b) = (a < b)"
| "same_bracket_lt (JBool a) (JBool b) = (\<not> a \<and> b)"
| "same_bracket_lt (JDate a) (JDate b) = (a < b)"
| "same_bracket_lt _ _ = False"

definition bson_lt :: "jsval \<Rightarrow> jsval \<Rightarrow> bool" where
  "bson_lt a b =
     (bson_rank a < bson_rank b \<or> (bson_rank a = bson_rank b \<and> same_bracket_lt a b))"

text \<open>
  A sort option is a field and a direction (\<open>True\<close> for \<open>1\<close>, \<open>False\<close> for \<open>-1\<close>).
  The server does not fix the order of documents that compare equal; the model keeps
  them in collection order (a stable insertion sort).
\<close>

type_synonym sort_option = "string \<times> bool"

definition doc_lt :: "sort_option \<Rightarrow> doc \<Rightarrow> doc \<Rightarrow> bool" where
  "doc_lt opt a b =
     (if snd opt then bson_lt (getprop a (fst opt)) (getprop b (fst opt))
      else bson_lt (getprop b (fst opt)) (getprop a (fst opt)))"

fun insert_by :: "('a \<Rightarrow> 'a \<Rightarrow> bool) \<Rightarrow> 'a \<Rightarrow> 'a list \<Rightarrow> 'a list" where
  "insert_by lt x [] = [x]"
| "insert_by lt x (y # ys) = (if lt y x then y # insert_by lt x ys else x # y # ys)"

definition sort_docs :: "sort_option \<Rightarrow> doc list \<Rightarrow> doc list" where
  "sort_docs opt ds = foldr (insert_by (doc_lt opt)) ds []"

subsection \<open>Cursors\<close>

text \<open>
  \<open>find(query)\<close> gives a cursor; \<open>sort\<close>, \<open>skip\<close> and \<open>limit\<close> set its options and
  \<open>toArray\<close> runs it. A skip that is not a non-negative whole number and a limit that is
  not a whole number are rejected; the limit 0 means no limit and a negative limit is
  served as its absolute value.
\<close>

record cursor =
  c_filter :: doc
  c_sort :: "sort_option option"
  c_skip :: jsnum
  c_limit :: jsnum

definition find_cursor :: "doc \<Rightarrow> cursor" where
  "find_cursor query = \<lparr>c_filter = query, c_sort = None, c_skip = Num 0, c_limit = Num 0\<rparr>"

definition whole :: "jsnum \<Rightarrow> int option" where
  "whole n = (case n of Num r \<Rightarrow> (if of_int \<lfloor>r\<rfloor> = r then Some \<lfloor>r\<rfloor> else None) | _ \<Rightarrow> None)"

definition toArray :: "doc list \<Rightarrow> cursor \<Rightarrow> error + doc list" where
  "toArray coll c =
     (case (whole (c_skip c), whole (c_limit c)) of
        (Some s, Some l) \<Rightarrow>
          if s < 0 then Inl MongoServerError
          else
            (let matching = filter (matches (c_filter c)) coll;
                 sorted = (case c_sort c of None \<Rightarrow> matching | Some opt \<Rightarrow> sort_docs opt matching);
                 skipped = drop (nat s) sorted
             in Inr (if l = 0 then skipped else take (nat \<bar>l\<bar>) skipped))
      | _ \<Rightarrow> Inl MongoServerError)"

subsection \<open>Writes\<close>

fun update_first :: "('a \<Rightarrow> bool) \<Rightarrow> ('a \<Rightarrow> 'a) \<Rightarrow> 'a list \<Rightarrow> 'a list" where
  "update_first P f [] = []"
| "update_first P f (x # xs) = (if P x then f x # xs else x # update_first P f xs)"

fun remove_first :: "('a \<Rightarrow> bool) \<Rightarrow> 'a list \<Rightarrow> 'a list" where
  "remove_first P [] = []"
| "remove_first P (x # xs) = (if P x then xs else x # remove_first P xs)"

text \<open>\<open>$set\<close>: each listed field is overwritten in place, or appended when missing.\<close>

definition apply_set :: "doc \<Rightarrow> doc \<Rightarrow> doc" where
  "apply_set sets d = foldl (\<lambda>acc kv. AList.update (fst kv) (bson (snd kv)) acc) d sets"

record update_result =
  matchedCount :: nat
  modifiedCount :: nat

text \<open>\<open>updateOne(filter, {$set: sets})\<close> changes the first matching document only.\<close>

definition updateOne :: "doc list \<Rightarrow> doc \<Rightarrow> doc \<Rightarrow> update_result \<times> doc list" where
  "updateOne coll query sets =
     (case findOne coll query of
        None \<Rightarrow> (\<lparr>matchedCount = 0, modifiedCount = 0\<rparr>, coll)
      | Some d \<Rightarrow>
          (\<lparr>matchedCount = 1, modifiedCount = (if apply_set sets d = d then 0 else 1)\<rparr>,
           update_first (matches query) (apply_set sets) coll))"

text \<open>\<open>deleteOne(filter)\<close> removes the first matching document; the count is 0 or 1.\<close>

definition deleteOne :: "doc list \<Rightarrow> doc \<Rightarrow> nat \<times> doc list" where
  "deleteOne coll query =
     (case findOne coll query of
        None \<Rightarrow> (0, coll)
      | Some d \<Rightarrow> (1, remove_first (matches query) coll))"

section \<open>Responses\<close>

text \<open>
  A signed token, kept symbolic: the claims it was signed over (as \<open>JSON.stringify\<close>
  prints the payload) and the key it was signed with.
\<close>

record token =
  claims :: doc
  signing_key :: string

datatype json =
    JV jsval
  | JE error
  | JT token
  | JA "json list"
  | JO "(string \<times> json) list"

record response =
  status :: nat
  body :: json

text \<open>
  \<open>res.json(obj)\<close> prints the object with \<open>JSON.stringify\<close>: a property whose value is
  \<open>undefined\<close> is left out, and a number that is not finite is printed as \<open>null\<close>.
\<close>

definition json_scalar :: "jsval \<Rightarrow> jsval" where
  "json_scalar v = (case v of JNum (Num r) \<Rightarrow> v | JNum _ \<Rightarrow> JNull | _ \<Rightarrow> v)"

fun stringify :: "json \<Rightarrow> json" where
  "stringify (JV v) = JV (json_scalar v)"
| "stringify (JE e) = JE e"
| "stringify (JT tok) = JT tok"
| "stringify (JA xs) = JA (map stringify xs)"
| "stringify (JO ps) =
     JO (map (map_prod id stringify) (filter (\<lambda>kv. snd kv \<noteq> JV JUndefined) ps))"

definition res_json :: "nat \<Rightarrow> (string \<times> json) list \<Rightarrow> response" where
  "res_json code obj = \<lparr>status = code, body = stringify (JO obj)\<rparr>"

definition doc_json :: "doc \<Rightarrow> json" where
  "doc_json d = JO (map (map_prod id JV) d)"

text \<open>
  A count of documents, as the driver returns it (a collection holds fewer than \<open>2^53\<close>
  documents, so the number is the count itself).
\<close>

definition count_json :: "nat \<Rightarrow> json" where
  "count_json n = JV (JNum (Num (of_nat n)))"

section \<open>Product handlers\<close>

text \<open>
  The query string of a listing request: each parameter is absent or a string. (A
  parameter repeated or written with brackets, which the framework parses to an array
  or an object, is outside the model.)
\<close>

record req_query =
  q_page :: "string option"
  q_limit :: "string option"
  q_category :: "string option"
  q_sort :: "string option"

text \<open>Truthiness of a query parameter: absent and empty are both falsy.\<close>

definition given :: "string option \<Rightarrow> bool" where
  "given p = (case p of None \<Rightarrow> False | Some s \<Rightarrow> s \<noteq> [])"

definition category_query :: "req_query \<Rightarrow> doc" where
  "category_query q =
     (if given (q_category q) then [(''category'', JStr (the (q_category q)))] else [])"

text \<open>
  The default \<open>page = 1\<close> is the number 1; the handler only uses it through \<open>page - 1\<close>
  and \<open>parseInt(page)\<close>, where it behaves as the string \<open>"1"\<close>.
\<close>

definition page_of :: "req_query \<Rightarrow> string" where
  "page_of q = (case q_page q of None \<Rightarrow> ''1'' | Some p \<Rightarrow> p)"

definition envelope :: "doc list \<Rightarrow> nat \<Rightarrow> jsnum \<Rightarrow> jsnum \<Rightarrow> response" where
  "envelope prods totalProducts totalPages currentPage =
     res_json 200
       [(''success'', JV (JBool True)),
        (''message'', JV (JStr ''Products retrieved successfully'')),
        (''products'', JA (map doc_json prods)),
        (''totalProducts'', count_json totalProducts),
        (''totalPages'', JV (JNum totalPages)),
        (''currentPage'', JV (JNum currentPage))]"

definition failure :: "nat \<Rightarrow> string \<Rightarrow> response" where
  "failure code msg =
     res_json code [(''success'', JV (JBool False)), (''message'', JV (JStr msg))]"

definition failure_with :: "string \<Rightarrow> error \<Rightarrow> response" where
  "failure_with msg e =
     res_json 500
       [(''success'', JV (JBool False)), (''message'', JV (JStr msg)), (''error'', JE e)]"

text \<open>
  The sort option of \<open>src/index.js\<close>: a \<open>sort\<close> parameter selects the price,
  ascending for \<open>"asc"\<close> and descending for anything else; without it the newest
  document comes first.
\<close>

definition sortOption :: "req_query \<Rightarrow> sort_option" where
  "sortOption q =
     (if given (q_sort q)
      then (if q_sort q = Some ''asc'' then (''price'', True) else (''price'', False))
      else (''createdAt'', False))"

text \<open>The sort option of \<open>src/unnamed/part_000\<close>: always the price.\<close>

definition sortOption_part_000 :: "req_query \<Rightarrow> sort_option" where
  "sortOption_part_000 q =
     (if q_sort q = Some ''asc'' then (''price'', True) else (''price'', False))"

text \<open>\<open>GET /api/v1/products\<close> of \<open>src/index.js\<close>.\<close>

definition get_products :: "store \<Rightarrow> req_query \<Rightarrow> response" where
  "get_products st q =
     (let page = page_of q;
          query = category_query q;
          productQuery = (find_cursor query)\<lparr>c_sort := Some (sortOption q)\<rparr>;
          productQuery' =
            (if given (q_limit q) then
               (let parsedLimit = parseInt (the (q_limit q)) (Some 10);
                    skip = js_mul (js_sub (toNumber page) (Num 1)) parsedLimit
                in productQuery\<lparr>c_skip := skip, c_limit := parsedLimit\<rparr>)
             else productQuery)
      in case toArray (products st) productQuery' of
           Inl e \<Rightarrow> failure_with ''Failed to get products'' e
         | Inr prods \<Rightarrow>
             (let totalProducts = countDocuments (products st) query
              in envelope prods totalProducts
                   (if given (q_limit q)
                    then Math_ceil (js_div (Num (of_nat totalProducts)) (toNumber (the (q_limit q))))
                    else Num 1)
                   (parseInt page (Some 10))))"

text \<open>
  \<open>GET /api/v1/products\<close> of \<open>src/unnamed/part_000\<close>: the page size is the constant 9,
  no \<open>limit\<close> parameter is read, and the sort is always on the price.
\<close>

definition get_products_part_000 :: "store \<Rightarrow> req_query \<Rightarrow> response" where
  "get_products_part_000 st q =
     (let page = page_of q;
          limit = Num 9;
          skip = js_mul (js_sub (toNumber page) (Num 1)) limit;
          query = category_query q;
          productQuery =
            (find_cursor query)
              \<lparr>c_sort := Some (sortOption_part_000 q), c_skip := skip, c_limit := limit\<rparr>
      in case toArray (products st) productQuery of
           Inl e \<Rightarrow> failure_with ''Failed to get products'' e
         | Inr prods \<Rightarrow>
             (let totalProducts = countDocuments (products st) query
              in envelope prods totalProducts
                   (Math_ceil (js_div (Num (of_nat totalProducts)) limit))
                   (parseInt page None)))"

text \<open>\<open>GET /api/v1/products/:id\<close> (the same in both files).\<close>

definition get_product :: "store \<Rightarrow> string \<Rightarrow> response" where
  "get_product st pid =
     (case ObjectId pid of
        Inl e \<Rightarrow> failure_with ''Failed to get product'' e
      | Inr oid \<Rightarrow>
          (case findOne (products st) [(''_id'', JOid oid)] of
             None \<Rightarrow> failure 404 ''Product not found''
           | Some product \<Rightarrow>
               res_json 200
                 [(''success'', JV (JBool True)),
                  (''message'', JV (JStr ''Product retrieved successfully'')),
                  (''product'', doc_json product)]))"

definition product_fields :: "string list" where
  "product_fields = [''image'', ''title'', ''price'', ''ratings'', ''category'', ''description'']"

definition update_result_json :: "update_result \<Rightarrow> json" where
  "update_result_json r =
     JO [(''acknowledged'', JV (JBool True)),
         (''modifiedCount'', count_json (modifiedCount r)),
         (''upsertedId'', JV JNull),
         (''upsertedCount'', count_json 0),
         (''matchedCount'', count_json (matchedCount r))]"

text \<open>\<open>PUT /api/v1/products/:id\<close> of \<open>src/index.js\<close>.\<close>

definition put_product :: "store \<Rightarrow> string \<Rightarrow> doc \<Rightarrow> response \<times> store" where
  "put_product st pid req_body =
     (let updatedProduct = map (\<lambda>k. (k, getprop req_body k)) product_fields
      in case ObjectId pid of
           Inl e \<Rightarrow> (failure_with ''Failed to update product'' e, st)
         | Inr oid \<Rightarrow>
             (let (result, coll) = updateOne (products st) [(''_id'', JOid oid)] updatedProduct
              in if matchedCount result = 0
                 then (failure 404 ''Product not found'', st\<lparr>products := coll\<rparr>)
                 else (res_json 200
                         [(''success'', JV (JBool True)),
                          (''message'', JV (JStr ''Product updated successfully'')),
                          (''product'', update_result_json result)],
                       st\<lparr>products := coll\<rparr>)))"

text \<open>
  \<open>PUT /api/v1/products/:id\<close> of \<open>src/unnamed/part_000\<close>: it also sets \<open>updatedAt\<close> to
  the current time and answers without the write result.
\<close>

definition put_product_part_000 :: "int \<Rightarrow> store \<Rightarrow> string \<Rightarrow> doc \<Rightarrow> response \<times> store" where
  "put_product_part_000 now st pid req_body =
     (let updatedProduct =
            map (\<lambda>k. (k, getprop req_body k)) product_fields @ [(''updatedAt'', JDate now)]
      in case ObjectId pid of
           Inl e \<Rightarrow> (failure_with ''Failed to update product'' e, st)
         | Inr oid \<Rightarrow>
             (let (result, coll) = updateOne (products st) [(''_id'', JOid oid)] updatedProduct
              in if matchedCount result = 0
                 then (failure 404 ''Product not found'', st\<lparr>products := coll\<rparr>)
                 else (res_json 200
                         [(''success'', JV (JBool True)),
                          (''message'', JV (JStr ''Product updated successfully''))],
                       st\<lparr>products := coll\<rparr>)))"

text \<open>\<open>DELETE /api/v1/products/:id\<close> (the same in both files).\<close>

definition delete_product :: "store \<Rightarrow> string \<Rightarrow> response \<times> store" where
  "delete_product st pid =
     (case ObjectId pid of
        Inl e \<Rightarrow> (failure_with ''Failed to delete product'' e, st)
      | Inr oid \<Rightarrow>
          (let (deletedCount, coll) = deleteOne (products st) [(''_id'', JOid oid)]
           in if deletedCount = 0
              then (failure 404 ''Product not found'', st\<lparr>products := coll\<rparr>)
              else (res_json 200
                      [(''success'', JV (JBool True)),
                       (''message'', JV (JStr ''Product deleted successfully''))],
                    st\<lparr>products := coll\<rparr>)))"

section \<open>Registration and login\<close>

text \<open>
  What the two handlers use from outside: the two environment variables, the password
  hasher (its salt is part of the function), the time-span parser of the token library
  and the clock (milliseconds).
\<close>

record env =
  JWT_SECRET :: "string option"
  EXPIRES_IN :: "string option"
  bcrypt_hash :: "string \<Rightarrow> string"
  bcrypt_compare :: "string \<Rightarrow> string \<Rightarrow> bool"
  ms :: "string \<Rightarrow> rat option"
  clock :: int

text \<open>\<open>bcrypt.hash(data, 10)\<close> and \<open>bcrypt.compare(data, hash)\<close> reject anything but strings.\<close>

definition hash_password :: "env \<Rightarrow> jsval \<Rightarrow> error + string" where
  "hash_password e data =
     (case data of JStr s \<Rightarrow> Inr (bcrypt_hash e s) | _ \<Rightarrow> Inl BcryptArgumentError)"

definition compare_password :: "env \<Rightarrow> jsval \<Rightarrow> jsval \<Rightarrow> error + bool" where
  "compare_password e data hash =
     (case (data, hash) of
        (JStr s, JStr h) \<Rightarrow> Inr (bcrypt_compare e s h)
      | _ \<Rightarrow> Inl BcryptArgumentError)"

text \<open>
  \<open>jwt.sign(payload, process.env.JWT_SECRET, {expiresIn: process.env.EXPIRES_IN})\<close>:
  a missing or empty secret throws, then a missing, empty or unreadable time span
  throws. Otherwise the token carries the payload without its \<open>undefined\<close> properties,
  the issue time \<open>iat\<close> in seconds and \<open>exp = floor(iat + span / 1000)\<close>.
\<close>

definition jwt_sign :: "env \<Rightarrow> doc \<Rightarrow> error + token" where
  "jwt_sign e payload =
     (if \<not> given (JWT_SECRET e) then Inl JwtSecretError
      else if \<not> given (EXPIRES_IN e) then Inl JwtOptionError
      else case ms e (the (EXPIRES_IN e)) of
             None \<Rightarrow> Inl JwtOptionError
           | Some millis \<Rightarrow>
               (let iat = clock e div 1000
                in Inr \<lparr>claims =
                          filter (\<lambda>kv. snd kv \<noteq> JUndefined) payload
                          @ [(''iat'', JNum (Num (of_int iat))),
                             (''exp'', JNum (Num (of_int \<lfloor>of_int iat + millis / 1000\<rfloor>)))],
                        signing_key = the (JWT_SECRET e)\<rparr>))"

text \<open>
  \<open>insertOne(doc)\<close> stores the document under a fresh identifier and resolves to the
  write result, an object with the two properties \<open>acknowledged\<close> and \<open>insertedId\<close>.
  (Drivers before version 4 resolve to an object with \<open>result\<close>, \<open>ops\<close>,
  \<open>insertedCount\<close> and \<open>insertedId\<close>; neither shape has the fields of the document.)
\<close>

definition insertOne :: "doc list \<Rightarrow> int \<Rightarrow> doc \<Rightarrow> doc \<times> doc list" where
  "insertOne coll oid d =
     ([(''acknowledged'', JBool True), (''insertedId'', JOid oid)],
      coll @ [(''_id'', JOid oid) # map (map_prod id bson) d])"

text \<open>
  The two handlers have no \<open>try\<close>: an exception inside them rejects the promise the
  handler returned, and no response is written by the handler.
\<close>

datatype outcome = Responded response | Unhandled error

definition default_image :: string where
  "default_image = ''https://cdn.pixabay.com/photo/2020/07/01/12/58/icon-5359553_1280.png''"

text \<open>\<open>POST /api/v1/register\<close> (the same in both files).\<close>

definition register :: "env \<Rightarrow> store \<Rightarrow> doc \<Rightarrow> outcome \<times> store" where
  "register e st req_body =
     (let username = getprop req_body ''username'';
          email = getprop req_body ''email'';
          password = getprop req_body ''password'';
          imageUrl = getprop req_body ''imageUrl''
      in case findOne (users st) [(''email'', email)] of
           Some existingUser \<Rightarrow>
             (Responded (failure 400 ''User already exists!''), st)
         | None \<Rightarrow>
             (case hash_password e password of
                Inl err \<Rightarrow> (Unhandled err, st)
              | Inr hashedPassword \<Rightarrow>
                  (let (newUser, coll) =
                         insertOne (users st) (next_oid st)
                           [(''username'', username),
                            (''email'', email),
                            (''password'', JStr hashedPassword),
                            (''role'', JStr ''user''),
                            (''imageUrl'', js_or imageUrl (JStr default_image))];
                       st' = st\<lparr>users := coll, next_oid := next_oid st + 1\<rparr>
                   in case jwt_sign e [(''email'', getprop newUser ''email''),
                                       (''role'', JStr ''user'')] of
                        Inl err \<Rightarrow> (Unhandled err, st')
                      | Inr tok \<Rightarrow>
                          (Responded
                             (res_json 201
                                [(''success'', JV (JBool True)),
                                 (''message'', JV (JStr ''User registered successfully!'')),
                                 (''accessToken'', JT tok),
                                 (''user'',
                                  JO [(''username'', JV username),
                                      (''email'', JV email),
                                      (''role'', JV (JStr ''user'')),
                                      (''imageUrl'', JV (getprop newUser ''imageUrl''))])]),
                           st'))))"

text \<open>\<open>POST /api/v1/login\<close> (the same in both files).\<close>

definition invalid_credentials :: response where
  "invalid_credentials = res_json 401 [(''message'', JV (JStr ''Invalid email or password''))]"

definition login :: "env \<Rightarrow> store \<Rightarrow> doc \<Rightarrow> outcome" where
  "login e st req_body =
     (let email = getprop req_body ''email'';
          password = getprop req_body ''password''
      in case findOne (users st) [(''email'', email)] of
           None \<Rightarrow> Responded invalid_credentials
         | Some user \<Rightarrow>
             (case compare_password e password (getprop user ''password'') of
                Inl err \<Rightarrow> Unhandled err
              | Inr isPasswordValid \<Rightarrow>
                  if \<not> isPasswordValid then Responded invalid_credentials
                  else
                    (case jwt_sign e [(''email'', getprop user ''email''),
                                      (''role'', getprop user ''role'')] of
                       Inl err \<Rightarrow> Unhandled err
                     | Inr tok \<Rightarrow>
                         Responded
                           (res_json 200
                              [(''success'', JV (JBool True)),
                               (''message'', JV (JStr ''User successfully logged in!'')),
                               (''accessToken'', JT tok),
                               (''user'',
                                JO [(''username'', JV (getprop user ''username'')),
                                    (''email'', JV (getprop user ''email'')),
                                    (''role'', JV (getprop user ''role'')),
                                    (''imageUrl'',
                                     JV (js_or (getprop user ''imageUrl'')
                                           (JStr default_image)))])]))))"

section \<open>Reading a response\<close>

definition body_field :: "response \<Rightarrow> string \<Rightarrow> json option" where
  "body_field r k = (case body r of JO ps \<Rightarrow> map_of ps k | _ \<Rightarrow> None)"

definition products_of :: "response \<Rightarrow> json list" where
  "products_of r = (case body_field r ''products'' of Some (JA xs) \<Rightarrow> xs | _ \<Rightarrow> [])"

text \<open>The value stored under a field of the product with a given identifier.\<close>

definition stored_field :: "store \<Rightarrow> int \<Rightarrow> string \<Rightarrow> jsval option" where
  "stored_field st oid k =
     (case findOne (products st) [(''_id'', JOid oid)] of
        None \<Rightarrow> None
      | Some d \<Rightarrow> map_of d k)"

text \<open>The documents of the catalogue that match the category filter of a request.\<close>

definition matching :: "store \<Rightarrow> req_query \<Rightarrow> doc list" where
  "matching st q = filter (matches (category_query q)) (products st)"

text \<open>
  A response lists the outcome of a cursor with a given filter: what a listing shares
  with the count of its envelope.
\<close>

definition listed_with :: "store \<Rightarrow> doc \<Rightarrow> response \<Rightarrow> bool" where
  "listed_with st query r =
     (\<exists>c prods. c_filter c = query \<and> toArray (products st) c = Inr prods
        \<and> body_field r ''products'' = Some (JA (map stringify (map doc_json prods))))"

text \<open>The token a handler sent, if it answered with one.\<close>

definition token_of :: "outcome \<Rightarrow> token option" where
  "token_of out =
     (case out of
        Responded r \<Rightarrow>
          (case body_field r ''accessToken'' of Some (JT tok) \<Rightarrow> Some tok | _ \<Rightarrow> None)
      | Unhandled e \<Rightarrow> None)"

section \<open>Concrete instances\<close>

text \<open>
  A toy environment (the hasher reverses the password behind a fixed prefix), one
  registered user and a few small catalogues, used to run the handlers on examples.
\<close>

definition sample_env :: env where
  "sample_env =
     \<lparr>JWT_SECRET = Some ''k'', EXPIRES_IN = Some ''1h'',
      bcrypt_hash = (\<lambda>s. ''$2b$10$'' @ rev s),
      bcrypt_compare = (\<lambda>s h. h = ''$2b$10$'' @ rev s),
      ms = (\<lambda>s. if s = ''1h'' then Some 3600000 else None),
      clock = 1700000000123\<rparr>"

definition ann :: doc where
  "ann =
     [(''_id'', JOid 1), (''username'', JStr ''ann''), (''email'', JStr ''ann@x.io''),
      (''password'', JStr ''$2b$10$wp''), (''role'', JStr ''user'')]"

definition sample_store :: store where
  "sample_store = \<lparr>users = [ann], products = [], next_oid = 2\<rparr>"

definition empty_store :: store where
  "empty_store = \<lparr>users = [], products = [], next_oid = 1\<rparr>"

definition shirt :: doc where
  "shirt =
     [(''_id'', JOid 10), (''title'', JStr ''shirt''), (''price'', JNum (Num 20)),
      (''category'', JStr ''tops'')]"

definition one_product_store :: store where
  "one_product_store = \<lparr>users = [], products = [shirt], next_oid = 11\<rparr>"

definition deleted_ok :: response where
  "deleted_ok =
     res_json 200
       [(''success'', JV (JBool True)),
        (''message'', JV (JStr ''Product deleted successfully''))]"

definition bare_title :: doc where
  "bare_title = [(''title'', JStr ''coat'')]"

definition no_params :: req_query where
  "no_params = \<lparr>q_page = None, q_limit = None, q_category = None, q_sort = None\<rparr>"

definition two_per_page :: req_query where
  "two_per_page = \<lparr>q_page = Some ''1'', q_limit = Some ''2'', q_category = None, q_sort = None\<rparr>"

definition priced :: "int \<Rightarrow> doc" where
  "priced n = [(''_id'', JOid n), (''price'', JNum (Num (of_int n)))]"

definition three_products :: store where
  "three_products = \<lparr>users = [], products = map priced [1, 2, 3], next_oid = 4\<rparr>"

definition ten_products :: store where
  "ten_products =
     \<lparr>users = [], products = map priced [1, 2, 3, 4, 5, 6, 7, 8, 9, 10], next_oid = 11\<rparr>"

definition tops_only :: req_query where
  "tops_only = \<lparr>q_page = None, q_limit = None, q_category = Some ''tops'', q_sort = None\<rparr>"

definition page_two_asc :: req_query where
  "page_two_asc =
     \<lparr>q_page = Some ''2'', q_limit = Some ''2'', q_category = None, q_sort = Some ''asc''\<rparr>"


definition shuffled_products :: store where
  "shuffled_products = \<lparr>users = [], products = map priced [3, 1, 2], next_oid = 4\<rparr>"

definition boots :: doc where
  "boots =
     [(''_id'', JOid 11), (''title'', JStr ''boots''), (''price'', JNum (Num 45)),
      (''category'', JStr ''shoes'')]"

definition two_category_store :: store where
  "two_category_store = \<lparr>users = [], products = [shirt, boots], next_oid = 12\<rparr>"


definition ann_request :: doc where
  "ann_request =
     [(''username'', JStr ''ann''), (''email'', JStr ''ann@x.io''), (''password'', JStr ''pw'')]"

definition no_password_request :: doc where
  "no_password_request = [(''username'', JStr ''ann''), (''email'', JStr ''ann@x.io'')]"

section \<open>Auxiliary facts\<close>

subsection \<open>Rounding to a double\<close>

lemma round_half_even_int: "round_half_even (of_int n) = n"
  by (simp add: round_half_even_def)

lemma round_half_even_error: "\<bar>of_int (round_half_even y) - y\<bar> \<le> 1 / 2"
proof -
  have f: "of_int \<lfloor>y\<rfloor> \<le> y" "y < of_int \<lfloor>y\<rfloor> + 1"
    by linarith+
  show ?thesis
    unfolding round_half_even_def Let_def using f by (auto simp: abs_le_iff)
qed

lemma ilog2_lower:
  assumes "0 < a"
  shows "2 powi (ilog2 a) \<le> a"
proof -
  obtain p q where pq: "quotient_of a = (p, q)" by (cases "quotient_of a")
  have q: "0 < q" using pq by (rule quotient_of_denom_pos)
  have a: "a = of_int p / of_int q" using pq by (rule quotient_of_div)
  have p: "0 < p" using assms q unfolding a by (simp add: zero_less_divide_iff)
  define k where "k = bitlen p - bitlen q"
  have bp: "2 ^ nat (bitlen p - 1) \<le> p" using bitlen_bounds[OF p] by simp
  have bq: "q < 2 ^ nat (bitlen q)" using bitlen_bounds[OF q] by simp
  have lp: "1 \<le> bitlen p" using p by (simp add: bitlen_alt_def)
  have lq: "0 \<le> bitlen q" by (rule bitlen_nonneg)
  have e: "k - 1 = (bitlen p - 1) - bitlen q" by (simp add: k_def)
  have "(2::rat) powi (k - 1) = 2 powi (bitlen p - 1) / 2 powi (bitlen q)"
    unfolding e by (rule power_int_diff) simp
  also have "\<dots> = 2 ^ nat (bitlen p - 1) / 2 ^ nat (bitlen q)"
    using lp lq by (simp add: power_int_def)
  also have "\<dots> \<le> of_int p / of_int q"
  proof -
    have 1: "(2::rat) ^ nat (bitlen p - 1) \<le> of_int p"
      using bp by (metis of_int_le_iff of_int_numeral of_int_power)
    have 2: "of_int q \<le> (2::rat) ^ nat (bitlen q)"
      using bq by (metis less_imp_le of_int_le_iff of_int_numeral of_int_power)
    show ?thesis using 1 2 q p by (intro frac_le) simp_all
  qed
  finally have "(2::rat) powi (k - 1) \<le> a" unfolding a .
  then show ?thesis
    unfolding ilog2_def Let_def pq fst_conv snd_conv k_def[symmetric] by simp
qed

lemma double_of_int:
  assumes "\<bar>n\<bar> < 2 ^ 53"
  shows "double_of (of_int n) = Num (of_int n)"
proof (cases "n = 0")
  case True
  then show ?thesis by (simp add: double_of_def)
next
  case False
  define a :: rat where "a = \<bar>of_int n\<bar>"
  define q where "q = max (ilog2 a) (- 1022) - 52"
  have a0: "0 < a" using False by (simp add: a_def)
  have a53: "a < 2 powi 53" using assms unfolding a_def
    by (metis of_int_abs of_int_less_iff of_int_numeral of_int_power power_int_of_nat
        of_nat_numeral)
  have "(2::rat) powi (ilog2 a) < 2 powi 53" using ilog2_lower[OF a0] a53 by simp
  then have "ilog2 a < 53" by (intro power_int_le_imp_less_exp[of 2]) simp_all
  then have q: "q \<le> 0" by (simp add: q_def)
  have u: "a / 2 powi q = of_int (\<bar>n\<bar> * 2 ^ nat (- q))"
  proof -
    have 1: "(2::rat) powi (- q) = 2 ^ nat (- q)"
      using q by (simp add: power_int_def)
    have 2: "(2::rat) powi q = inverse (2 powi (- q))"
      using power_int_minus[of "2::rat" "- q"] by simp
    have "(2::rat) powi q = inverse (2 ^ nat (- q))"
      unfolding 2 1 ..
    then show ?thesis by (simp add: a_def field_simps)
  qed
  have r: "of_int (round_half_even (a / 2 powi q)) * 2 powi q = a"
    unfolding u round_half_even_int using u by (simp add: field_simps)
  have "a < 2 powi 1024" using a53 by (rule less_trans) simp
  then show ?thesis
    using False unfolding double_of_def Let_def a_def[symmetric] q_def[symmetric] r
    by (auto simp: a_def)
qed


lemma ilog2_upper:
  assumes "0 < a"
  shows "a < 2 powi (ilog2 a + 1)"
proof -
  obtain p q where pq: "quotient_of a = (p, q)" by (cases "quotient_of a")
  have q: "0 < q" using pq by (rule quotient_of_denom_pos)
  have a: "a = of_int p / of_int q" using pq by (rule quotient_of_div)
  have p: "0 < p" using assms q unfolding a by (simp add: zero_less_divide_iff)
  define k where "k = bitlen p - bitlen q"
  have bp: "p < 2 ^ nat (bitlen p)" using bitlen_bounds[OF p] by simp
  have bq: "2 ^ nat (bitlen q - 1) \<le> q" using bitlen_bounds[OF q] by simp
  have lq: "1 \<le> bitlen q" using q by (simp add: bitlen_alt_def)
  have lp: "0 \<le> bitlen p" by (rule bitlen_nonneg)
  have e: "k + 1 = bitlen p - (bitlen q - 1)" by (simp add: k_def)
  have 1: "of_int p < (2::rat) ^ nat (bitlen p)"
    using bp by (metis of_int_less_iff of_int_numeral of_int_power)
  have 2: "(2::rat) ^ nat (bitlen q - 1) \<le> of_int q"
    using bq by (metis of_int_le_iff of_int_numeral of_int_power)
  have "of_int p / of_int q < (2::rat) ^ nat (bitlen p) / 2 ^ nat (bitlen q - 1)"
    using 1 2 q p by (intro frac_less) simp_all
  also have "\<dots> = 2 powi (bitlen p) / 2 powi (bitlen q - 1)"
    using lp lq by (simp add: power_int_def)
  also have "\<dots> = 2 powi (k + 1)"
    unfolding e by (rule power_int_diff[symmetric]) simp
  finally have up: "a < 2 powi (k + 1)" unfolding a .
  show ?thesis
  proof (cases "2 powi k \<le> a")
    case True
    then show ?thesis
      using up unfolding ilog2_def Let_def pq fst_conv snd_conv k_def[symmetric] by simp
  next
    case False
    then show ?thesis
      unfolding ilog2_def Let_def pq fst_conv snd_conv k_def[symmetric] by simp
  qed
qed

lemma double_of_div_ceil:
  fixes t l :: int
  assumes "0 < l" "l < 2 ^ 53" "0 \<le> t" "t < 2 ^ 53"
  shows "\<exists>v. double_of (of_int t / of_int l) = Num v
             \<and> \<lceil>v\<rceil> = \<lceil>(of_int t :: rat) / of_int l\<rceil>"
proof (cases "l dvd t")
  case True
  then obtain c where c: "t = l * c" by (auto simp: dvd_def)
  have "0 \<le> c" using assms(1,3) c by (simp add: zero_le_mult_iff)
  moreover have "c \<le> t" using assms(1) c \<open>0 \<le> c\<close> by (simp add: mult_le_cancel_right1)
  ultimately have "\<bar>c\<bar> < 2 ^ 53" using assms(4) by simp
  then have "double_of (of_int c) = Num (of_int c)" by (rule double_of_int)
  moreover have "(of_int t :: rat) / of_int l = of_int c" using assms(1) c by simp
  ultimately show ?thesis by simp
next
  case False
  define x :: rat where "x = of_int t / of_int l"
  define k where "k = t div l"
  define r where "r = t mod l"
  have "0 \<le> r" "r < l" using assms(1) by (simp_all add: r_def)
  moreover have "r \<noteq> 0" using False by (simp add: r_def dvd_eq_mod_eq_0)
  ultimately have r: "1 \<le> r" "r \<le> l - 1" by linarith+
  have t: "t = k * l + r" by (simp add: k_def r_def)
  have l0: "(0::rat) < of_int l" using assms(1) by simp
  have xk: "x = of_int k + of_int r / of_int l"
    unfolding x_def using l0 by (subst t) (simp add: field_simps)
  have lo: "of_int k + 1 / of_int l \<le> x"
    unfolding xk using r(1) l0 by (simp add: divide_le_cancel)
  have hi: "x \<le> of_int k + 1 - 1 / of_int l"
  proof -
    have "of_int r / (of_int l :: rat) \<le> (of_int l - 1) / of_int l"
      using r(2) l0 by (simp add: divide_le_cancel)
    also have "\<dots> = 1 - 1 / of_int l" using l0 by (simp add: field_simps)
    finally show ?thesis unfolding xk by simp
  qed
  have k0: "0 \<le> k" using assms(1,3) by (simp add: k_def pos_imp_zdiv_nonneg_iff)
  have il: "(0::rat) < 1 / of_int l" using l0 by simp
  have "(0::rat) \<le> of_int k" using k0 by simp
  then have x0: "0 < x" using lo il by linarith
  define u :: rat where "u = 2 powi (max (ilog2 x) (- 1022) - 52)"
  define m where "m = round_half_even (x / u)"
  define v where "v = of_int m * u"
  have u0: "0 < u" by (simp add: u_def)
  have t53: "(of_int t :: rat) < 2 ^ 53"
    using assms(4) by (metis of_int_less_iff of_int_numeral of_int_power)
  have l53: "(of_int l :: rat) < 2 ^ 53"
    using assms(2) by (metis of_int_less_iff of_int_numeral of_int_power)
  have ul: "u < 2 / of_int l"
  proof (cases "- 1022 \<le> ilog2 x")
    case True
    then have "u = 2 powi (ilog2 x - 52)" by (simp add: u_def max_def)
    also have "\<dots> = 2 powi (ilog2 x) / 2 powi 52"
      by (rule power_int_diff) simp
    also have "\<dots> \<le> x / 2 powi 52"
      using ilog2_lower[OF x0] by (simp add: divide_right_mono)
    also have "\<dots> = of_int t / (of_int l * 2 ^ 52)"
      by (simp add: x_def)
    also have "\<dots> < 2 ^ 53 / (of_int l * 2 ^ 52)"
      using t53 l0 by (intro divide_strict_right_mono) simp_all
    also have "\<dots> = 2 / of_int l" by simp
    finally show ?thesis .
  next
    case False
    then have "u = 2 powi (- 1074)" by (simp add: u_def max_def)
    also have "\<dots> \<le> 2 powi (- 52)"
      by (rule power_int_increasing) simp_all
    also have "\<dots> = 2 / 2 ^ 53"
      by (simp add: power_int_minus field_simps)
    also have "\<dots> < 2 / of_int l"
      using l53 l0 by (intro divide_strict_left_mono) simp_all
    finally show ?thesis .
  qed
  have "v - x = (of_int m - x / u) * u"
    using u0 by (simp add: v_def field_simps)
  then have "\<bar>v - x\<bar> = \<bar>of_int m - x / u\<bar> * u"
    using u0 by (simp add: abs_mult)
  also have "\<dots> \<le> (1 / 2) * u"
    using round_half_even_error[of "x / u"] u0 unfolding m_def
    by (intro mult_right_mono) simp_all
  also have "\<dots> < 1 / of_int l" using ul by simp
  finally have err: "\<bar>v - x\<bar> < 1 / of_int l" .
  have vk: "of_int k < v" "v < of_int k + 1"
    using err lo hi by (simp_all add: abs_less_iff)
  have k53: "of_int k + 1 \<le> (2::rat) ^ 53"
  proof -
    have "k * 1 \<le> k * l" using k0 assms(1) by (intro mult_left_mono) simp_all
    then have "k \<le> t" using t r(1) by simp
    then have "k + 1 \<le> 2 ^ 53" using assms(4) by simp
    then show ?thesis by (metis of_int_1 of_int_add of_int_le_iff of_int_numeral of_int_power)
  qed
  have nov: "\<not> 2 powi 1024 \<le> v"
  proof -
    have "v < (2::rat) ^ 53" using vk(2) k53 by simp
    also have "\<dots> = 2 powi 53" by simp
    also have "\<dots> \<le> 2 powi 1024" by (rule power_int_increasing) simp_all
    finally show ?thesis by simp
  qed
  have d: "double_of x = Num v"
    using x0 nov unfolding double_of_def Let_def
    by (simp add: u_def[symmetric] m_def[symmetric] v_def[symmetric])
  have "\<lceil>v\<rceil> = k + 1" using vk by (intro ceiling_unique) simp_all
  moreover have "\<lceil>x\<rceil> = k + 1"
  proof (rule ceiling_unique)
    have "of_int k < x" using lo il by linarith
    then show "of_int (k + 1) - 1 < x" by simp
    have "x \<le> of_int k + 1" using hi il by linarith
    then show "x \<le> of_int (k + 1)" by simp
  qed
  ultimately show ?thesis using d unfolding x_def by simp
qed

text \<open>Below \<open>2^53\<close> the arithmetic of the handlers on whole numbers is exact.\<close>

lemma js_sub_int:
  "\<bar>a - b\<bar> < 2 ^ 53 \<Longrightarrow> js_sub (Num (of_int a)) (Num (of_int b)) = Num (of_int (a - b))"
  using double_of_int[of "a - b"] by (simp add: js_sub_def)

lemma js_mul_int:
  "\<bar>a * b\<bar> < 2 ^ 53 \<Longrightarrow> js_mul (Num (of_int a)) (Num (of_int b)) = Num (of_int (a * b))"
  using double_of_int[of "a * b"] by (simp add: js_mul_def)

lemma page_arith:
  assumes "\<bar>p - 1\<bar> < 2 ^ 53" "\<bar>(p - 1) * l\<bar> < 2 ^ 53"
  shows "js_mul (js_sub (Num (of_int p)) (Num 1)) (Num (of_int l)) = Num (of_int ((p - 1) * l))"
proof -
  have "js_sub (Num (of_int p)) (Num (of_int 1)) = Num (of_int (p - 1))"
    using assms(1) by (rule js_sub_int)
  then have "js_sub (Num (of_int p)) (Num 1) = Num (of_int (p - 1))" by simp
  then show ?thesis using js_mul_int[OF assms(2)] by simp
qed

lemma ceil_div:
  assumes "0 < l" "l < 2 ^ 53" "int n < 2 ^ 53"
  shows "Math_ceil (js_div (Num (of_nat n)) (Num (of_int l)))
           = Num (of_int \<lceil>(of_nat n :: rat) / of_int l\<rceil>)"
proof -
  obtain v where v: "double_of (of_int (int n) / of_int l) = Num v"
      "\<lceil>v\<rceil> = \<lceil>(of_int (int n) :: rat) / of_int l\<rceil>"
    using double_of_div_ceil[OF assms(1,2) _ assms(3)] by auto
  have "js_div (Num (of_nat n)) (Num (of_int l)) = Num v"
    using assms(1) v(1) by (simp add: js_div_def)
  then show ?thesis using v(2) by (simp add: Math_ceil_def)
qed

subsection \<open>Decimal strings\<close>

lemma is_digit_not_ws: "is_digit c \<Longrightarrow> \<not> is_ws c"
  by (auto simp: is_digit_def is_ws_def)

lemma is_digit_in_radix: "is_digit c \<Longrightarrow> in_radix 10 c"
  by (auto simp: is_digit_def in_radix_def hex_val_def digit_val_def)

lemma is_digit_not_marker: "is_digit c \<Longrightarrow> c \<notin> set ''xXoObB-+.''"
  by (auto simp: is_digit_def)

lemma radix_num_nonneg_aux:
  "0 \<le> a \<Longrightarrow>
   0 \<le> foldl (\<lambda>a c. int b * a + (case hex_val c of None \<Rightarrow> 0 | Some d \<Rightarrow> int d)) a s"
  by (induction s arbitrary: a) (auto split: option.splits)

lemma digits_val_nonneg: "0 \<le> digits_val s"
  using radix_num_nonneg_aux[of 0 10 s] by (simp add: digits_val_def radix_num_def)

lemma takeWhile_all: "list_all P xs \<Longrightarrow> takeWhile P xs = xs"
  by (induction xs) auto

lemma dropWhile_all: "list_all P xs \<Longrightarrow> dropWhile P xs = []"
  by (induction xs) auto

lemma dropWhile_none: "xs \<noteq> [] \<Longrightarrow> \<not> P (hd xs) \<Longrightarrow> dropWhile P xs = xs"
  by (cases xs) auto

lemma digits_in_radix: "list_all is_digit ds \<Longrightarrow> list_all (in_radix 10) ds"
  by (induction ds) (auto simp: is_digit_in_radix)

lemma parseInt_digits_double:
  assumes "ds \<noteq> []" "list_all is_digit ds" "r = None \<or> r = Some 10"
  shows "parseInt ds r = double_of (of_int (digits_val ds))"
proof -
  obtain c cs where ds: "ds = c # cs" using assms(1) by (cases ds) auto
  have c: "is_digit c" using assms(2) ds by simp
  have ws: "dropWhile is_ws ds = ds" using ds c by (simp add: is_digit_not_ws)
  have sgn: "hd ds \<noteq> CHR ''-''" "hd ds \<noteq> CHR ''+''"
    using is_digit_not_marker[OF c] ds by auto
  have nohex:
    "(r = None \<and> 2 \<le> length ds \<and> hd ds = CHR ''0'' \<and> hd (tl ds) \<in> set ''xX'') = False"
  proof (cases cs)
    case Nil then show ?thesis using ds by simp
  next
    case (Cons d ds')
    then have "is_digit d" using assms(2) ds by simp
    from is_digit_not_marker[OF this] show ?thesis using ds Cons by auto
  qed
  have u: "(if ds \<noteq> [] \<and> (hd ds = CHR ''-'' \<or> hd ds = CHR ''+'') then tl ds else ds) = ds"
    using sgn by simp
  have tw: "takeWhile (in_radix 10) ds = ds"
    by (rule takeWhile_all) (rule digits_in_radix[OF assms(2)])
  have b: "(case r of None \<Rightarrow> 10 | Some r \<Rightarrow> r) = (10::nat)"
    using assms(3) by auto
  show ?thesis
    unfolding parseInt_def Let_def ws u nohex if_False b tw digits_val_def
    using sgn assms(1) by simp
qed

lemma toNumber_digits_double:
  assumes "ds \<noteq> []" "list_all is_digit ds"
  shows "toNumber ds = double_of (of_int (digits_val ds))"
proof -
  obtain c cs where ds: "ds = c # cs" using assms(1) by (cases ds) auto
  have c: "is_digit c" using assms(2) ds by simp
  have ws: "dropWhile is_ws ds = ds" using ds c by (simp add: is_digit_not_ws)
  have "rev ds \<noteq> []" "is_digit (hd (rev ds))"
    using assms by (auto simp: hd_rev list_all_iff)
  then have ws2: "dropWhile is_ws (rev ds) = rev ds"
    by (intro dropWhile_none) (auto simp: is_digit_not_ws)
  have sgn: "hd ds \<noteq> CHR ''-''" "hd ds \<noteq> CHR ''+''"
    using is_digit_not_marker[OF c] ds by auto
  have nopre: "\<not> is_prefixed ds"
  proof (cases cs)
    case Nil then show ?thesis using ds by (simp add: is_prefixed_def)
  next
    case (Cons d ds')
    then have "is_digit d" using assms(2) ds by simp
    from is_digit_not_marker[OF this] show ?thesis
      using ds Cons by (auto simp: is_prefixed_def)
  qed
  have noinf: "ds \<noteq> ''Infinity''"
    using c ds by (auto simp: is_digit_def)
  have dec: "decimal_literal ds = Some (of_int (digits_val ds))"
    using assms by (simp add: decimal_literal_def Let_def takeWhile_all dropWhile_all
        exponent_def pow10_def digits_val_def radix_num_def)
  show ?thesis
    unfolding toNumber_def Let_def ws ws2 rev_rev_ident
    using sgn nopre noinf dec assms(1) by (simp add: signed_literal_def)
qed

text \<open>A decimal string below \<open>2^53\<close> is read as the integer it writes.\<close>

lemma parseInt_digits:
  assumes "ds \<noteq> []" "list_all is_digit ds" "r = None \<or> r = Some 10"
    and "digits_val ds < 2 ^ 53"
  shows "parseInt ds r = Num (of_int (digits_val ds))"
  using parseInt_digits_double[OF assms(1-3)] double_of_int[of "digits_val ds"]
    digits_val_nonneg[of ds] assms(4) by simp

lemma toNumber_digits:
  assumes "ds \<noteq> []" "list_all is_digit ds" "digits_val ds < 2 ^ 53"
  shows "toNumber ds = Num (of_int (digits_val ds))"
  using toNumber_digits_double[OF assms(1,2)] double_of_int[of "digits_val ds"]
    digits_val_nonneg[of ds] assms(3) by simp

subsection \<open>Lookups by identifier\<close>

lemma matches_id: "matches [(''_id'', JOid oid)] d \<longleftrightarrow> getprop d ''_id'' = JOid oid"
  by (auto simp: matches_def field_matches_def bson_def getprop_def split: option.splits)

lemma remove_first_absent: "List.find P xs = None \<Longrightarrow> remove_first P xs = xs"
  by (induction xs) (auto split: if_splits)

lemma find_remove_first_distinct:
  assumes "distinct (map f xs)" and "\<And>x. P x \<longleftrightarrow> f x = v"
  shows "List.find P (remove_first P xs) = None"
  using assms(1)
proof (induction xs)
  case Nil
  then show ?case by simp
next
  case (Cons x xs)
  show ?case
  proof (cases "P x")
    case True
    then have "f x = v" using assms(2) by simp
    moreover have "f x \<notin> f ` set xs" using Cons.prems by simp
    ultimately have "\<forall>y\<in>set xs. f y \<noteq> v" by (metis imageI)
    then have "\<forall>y\<in>set xs. \<not> P y" using assms(2) by simp
    then have "List.find P xs = None" by (simp add: find_None_iff)
    with True show ?thesis by simp
  next
    case False
    with Cons show ?thesis by simp
  qed
qed

section \<open>Listing products\<close>

subsection \<open>Sorting and cursors\<close>

lemma mset_insert_by: "mset (insert_by lt x xs) = add_mset x (mset xs)"
  by (induction xs) auto

lemma mset_sort_docs: "mset (sort_docs opt ds) = mset ds"
  unfolding sort_docs_def by (induction ds) (auto simp: mset_insert_by)

lemma length_sort_docs: "length (sort_docs opt ds) = length ds"
  by (metis mset_sort_docs size_mset)

text \<open>The comparison is a strict weak order, so the insertion sort sorts.\<close>

lemma num_lt_asym: "num_lt a b \<Longrightarrow> \<not> num_lt b a"
  by (cases a; cases b) auto

lemma num_lt_negtrans: "\<not> num_lt b a \<Longrightarrow> \<not> num_lt c b \<Longrightarrow> \<not> num_lt c a"
  by (cases a; cases b; cases c) auto

lemma str_lt_asym: "str_lt a b \<Longrightarrow> \<not> str_lt b a"
  by (induction a b rule: str_lt.induct) auto

lemma str_lt_negtrans: "\<not> str_lt b a \<Longrightarrow> \<not> str_lt c b \<Longrightarrow> \<not> str_lt c a"
proof (induction c a arbitrary: b rule: str_lt.induct)
  case (1 uu)
  then show ?case by simp
next
  case (2 y ys)
  then show ?case by (cases b) auto
next
  case (3 x xs y ys)
  then show ?case
    by (cases b) (auto split: if_splits)
qed

lemma same_bracket_lt_asym: "same_bracket_lt a b \<Longrightarrow> \<not> same_bracket_lt b a"
  by (cases a; cases b) (auto simp: num_lt_asym str_lt_asym)

lemma bson_lt_asym: "bson_lt a b \<Longrightarrow> \<not> bson_lt b a"
  by (auto simp: bson_lt_def same_bracket_lt_asym)

lemma same_bracket_lt_negtrans:
  "bson_rank a = bson_rank b \<Longrightarrow> bson_rank b = bson_rank c \<Longrightarrow>
   \<not> same_bracket_lt b a \<Longrightarrow> \<not> same_bracket_lt c b \<Longrightarrow> \<not> same_bracket_lt c a"
  by (cases a; cases b; cases c) (auto dest: num_lt_negtrans str_lt_negtrans)

lemma bson_lt_negtrans: "\<not> bson_lt b a \<Longrightarrow> \<not> bson_lt c b \<Longrightarrow> \<not> bson_lt c a"
  unfolding bson_lt_def
  by (metis less_trans linorder_neqE_nat order_less_irrefl same_bracket_lt_negtrans)

lemma doc_lt_asym: "doc_lt opt a b \<Longrightarrow> \<not> doc_lt opt b a"
  by (auto simp: doc_lt_def bson_lt_asym split: if_splits)

lemma doc_lt_negtrans: "\<not> doc_lt opt b a \<Longrightarrow> \<not> doc_lt opt c b \<Longrightarrow> \<not> doc_lt opt c a"
  by (auto simp: doc_lt_def split: if_splits dest: bson_lt_negtrans)

lemma set_insert_by: "set (insert_by lt x xs) = insert x (set xs)"
  by (induction xs) auto

lemma sorted_insert_by:
  assumes "\<And>a b. lt a b \<Longrightarrow> \<not> lt b a"
    and "\<And>a b c. \<not> lt b a \<Longrightarrow> \<not> lt c b \<Longrightarrow> \<not> lt c a"
  shows "sorted_wrt (\<lambda>a b. \<not> lt b a) xs \<Longrightarrow> sorted_wrt (\<lambda>a b. \<not> lt b a) (insert_by lt x xs)"
proof (induction xs)
  case Nil
  then show ?case by simp
next
  case (Cons y ys)
  show ?case
  proof (cases "lt y x")
    case True
    then have "\<not> lt x y" by (rule assms(1))
    with True Cons show ?thesis by (auto simp: set_insert_by)
  next
    case False
    with Cons.prems show ?thesis using assms(2) by auto
  qed
qed

lemma sorted_sort_docs: "sorted_wrt (\<lambda>a b. \<not> doc_lt opt b a) (sort_docs opt ds)"
  unfolding sort_docs_def
proof (induction ds)
  case Nil
  then show ?case by simp
next
  case (Cons d ds)
  have "sorted_wrt (\<lambda>a b. \<not> doc_lt opt b a)
          (insert_by (doc_lt opt) d (foldr (insert_by (doc_lt opt)) ds []))"
    using doc_lt_asym doc_lt_negtrans Cons by (rule sorted_insert_by)
  then show ?case by simp
qed

lemma whole_of_int: "whole (Num (of_int k)) = Some k"
  by (simp add: whole_def)

lemma toArray_plain:
  "toArray coll ((find_cursor query)\<lparr>c_sort := Some opt\<rparr>)
     = Inr (sort_docs opt (filter (matches query) coll))"
  using whole_of_int[of 0] by (simp add: toArray_def find_cursor_def)

lemma toArray_window:
  assumes "0 \<le> s"
  shows "toArray coll ((find_cursor query)
            \<lparr>c_sort := Some opt, c_skip := Num (of_int s), c_limit := Num (of_int l)\<rparr>)
     = Inr (if l = 0 then drop (nat s) (sort_docs opt (filter (matches query) coll))
            else take (nat \<bar>l\<bar>) (drop (nat s) (sort_docs opt (filter (matches query) coll))))"
  using assms by (simp add: toArray_def find_cursor_def whole_of_int Let_def)

subsection \<open>The listing handlers, case by case\<close>

lemma get_products_no_limit:
  assumes "\<not> given (q_limit q)"
  shows "get_products st q =
           envelope (sort_docs (sortOption q) (matching st q)) (length (matching st q))
             (Num 1) (parseInt (page_of q) (Some 10))"
  using assms
  by (simp add: get_products_def Let_def toArray_plain countDocuments_def matching_def)

lemma get_products_window:
  assumes "q_limit q = Some ls" "ls \<noteq> []" "list_all is_digit ls"
    and "page_of q = ps" "ps \<noteq> []" "list_all is_digit ps"
    and "0 \<le> (digits_val ps - 1) * digits_val ls"
    and "digits_val ps < 2 ^ 53" "digits_val ls < 2 ^ 53"
    and "(digits_val ps - 1) * digits_val ls < 2 ^ 53"
  shows "get_products st q =
           envelope
             (if digits_val ls = 0
              then drop (nat ((digits_val ps - 1) * digits_val ls))
                     (sort_docs (sortOption q) (matching st q))
              else take (nat (digits_val ls))
                     (drop (nat ((digits_val ps - 1) * digits_val ls))
                        (sort_docs (sortOption q) (matching st q))))
             (length (matching st q))
             (Math_ceil (js_div (Num (of_nat (length (matching st q))))
                          (Num (of_int (digits_val ls)))))
             (Num (of_int (digits_val ps)))"
proof -
  define S where "S = (digits_val ps - 1) * digits_val ls"
  have g: "given (q_limit q)" using assms(1,2) by (simp add: given_def)
  have l: "parseInt ls (Some 10) = Num (of_int (digits_val ls))"
    "toNumber ls = Num (of_int (digits_val ls))"
    using assms(2,3,9) by (simp_all add: parseInt_digits toNumber_digits)
  have p: "parseInt ps (Some 10) = Num (of_int (digits_val ps))"
    "toNumber ps = Num (of_int (digits_val ps))"
    using assms(5,6,8) by (simp_all add: parseInt_digits toNumber_digits)
  have s: "0 \<le> S"
    unfolding S_def using assms(7) by simp
  have p1: "\<bar>digits_val ps - 1\<bar> < 2 ^ 53"
    using assms(8) digits_val_nonneg[of ps] by simp
  have s53: "\<bar>(digits_val ps - 1) * digits_val ls\<bar> < 2 ^ 53"
    using assms(7,10) by simp
  have m: "js_mul (js_sub (Num (of_int (digits_val ps))) (Num 1)) (Num (of_int (digits_val ls)))
             = Num (of_int S)"
    unfolding S_def using p1 s53 by (rule page_arith)
  have a: "\<bar>digits_val ls\<bar> = digits_val ls"
    using digits_val_nonneg[of ls] by simp
  have "get_products st q =
           envelope
             (if digits_val ls = 0
              then drop (nat S) (sort_docs (sortOption q) (matching st q))
              else take (nat (digits_val ls))
                     (drop (nat S) (sort_docs (sortOption q) (matching st q))))
             (length (matching st q))
             (Math_ceil (js_div (Num (of_nat (length (matching st q))))
                          (Num (of_int (digits_val ls)))))
             (Num (of_int (digits_val ps)))"
    unfolding get_products_def Let_def
    using g assms(1,4)
    by (simp add: l p m toArray_window[OF s] a countDocuments_def matching_def)
  then show ?thesis by (simp only: S_def)
qed

lemma get_products_part_000_window:
  assumes "page_of q = ps" "ps \<noteq> []" "list_all is_digit ps"
    and "0 \<le> (digits_val ps - 1) * 9" "(digits_val ps - 1) * 9 < 2 ^ 53"
  shows "get_products_part_000 st q =
           envelope
             (take 9 (drop (nat ((digits_val ps - 1) * 9))
                        (sort_docs (sortOption_part_000 q) (matching st q))))
             (length (matching st q))
             (Math_ceil (js_div (Num (of_nat (length (matching st q)))) (Num 9)))
             (Num (of_int (digits_val ps)))"
proof -
  define S where "S = (digits_val ps - 1) * 9"
  have p53: "digits_val ps < 2 ^ 53" using assms(5) by simp
  have p: "parseInt ps None = Num (of_int (digits_val ps))"
    "toNumber ps = Num (of_int (digits_val ps))"
    using assms(2,3) p53 by (simp_all add: parseInt_digits toNumber_digits)
  have s: "0 \<le> S"
    unfolding S_def using assms(4) by simp
  have p1: "\<bar>digits_val ps - 1\<bar> < 2 ^ 53"
    using p53 digits_val_nonneg[of ps] by simp
  have s53: "\<bar>(digits_val ps - 1) * 9\<bar> < 2 ^ 53"
    using assms(4,5) by simp
  have m: "js_mul (js_sub (Num (of_int (digits_val ps))) (Num 1)) (Num 9) = Num (of_int S)"
    unfolding S_def using page_arith[OF p1 s53] by simp
  have w: "toArray coll ((find_cursor query)
            \<lparr>c_sort := Some opt, c_skip := Num (of_int S), c_limit := Num 9\<rparr>)
     = Inr (take 9 (drop (nat S) (sort_docs opt (filter (matches query) coll))))"
    for coll query opt
    using toArray_window[OF s, where l = 9] by simp
  have "get_products_part_000 st q =
           envelope
             (take 9 (drop (nat S) (sort_docs (sortOption_part_000 q) (matching st q))))
             (length (matching st q))
             (Math_ceil (js_div (Num (of_nat (length (matching st q)))) (Num 9)))
             (Num (of_int (digits_val ps)))"
    unfolding get_products_part_000_def Let_def
    using assms(1) by (simp add: p m w countDocuments_def matching_def)
  then show ?thesis by (simp only: S_def)
qed

lemma ceil_div_9:
  assumes "int n < 2 ^ 53"
  shows "Math_ceil (js_div (Num (of_nat n)) (Num 9)) = Num (of_int \<lceil>(of_nat n :: rat) / 9\<rceil>)"
  using ceil_div[of 9 n] assms by simp

subsection \<open>Fields of the envelope\<close>

lemma status_envelope: "status (envelope prods n tp cp) = 200"
  by (simp add: envelope_def res_json_def)

lemma status_failure_with: "status (failure_with msg e) = 500"
  by (simp add: failure_with_def res_json_def)

lemma envelope_fields:
  "body_field (envelope prods n tp cp) ''success'' = Some (JV (JBool True))"
  "body_field (envelope prods n tp cp) ''products'' = Some (JA (map stringify (map doc_json prods)))"
  "body_field (envelope prods n tp cp) ''totalProducts'' = Some (JV (JNum (Num (of_nat n))))"
  "body_field (envelope prods n tp cp) ''totalPages'' = Some (JV (json_scalar (JNum tp)))"
  "body_field (envelope prods n tp cp) ''currentPage'' = Some (JV (json_scalar (JNum cp)))"
  by (simp_all add: envelope_def res_json_def body_field_def count_json_def json_scalar_def)

lemma length_products_of_envelope: "length (products_of (envelope prods n tp cp)) = length prods"
  by (simp add: products_of_def envelope_fields)

subsection \<open>The concrete requests and catalogues\<close>

lemma digits_val_1: "digits_val ''1'' = 1" "is_digit CHR ''1''"
  by (simp_all add: digits_val_def radix_num_def hex_val_def is_digit_def digit_val_def)

lemma digits_val_2: "digits_val ''2'' = 2" "is_digit CHR ''2''"
  by (simp_all add: digits_val_def radix_num_def hex_val_def is_digit_def digit_val_def)


lemma ceiling_examples:
  "\<lceil>(10::rat) / 9\<rceil> = 2" "\<lceil>(3::rat) / 2\<rceil> = 2" "\<lceil>(1::rat) / 3\<rceil> = 1"
  "\<lceil>(1::rat) / 9\<rceil> = 1"
  by (rule ceiling_unique; simp)+

lemma page_of_two_per_page: "page_of two_per_page = ''1''" "q_limit two_per_page = Some ''2''"
  by (simp_all add: page_of_def two_per_page_def)

lemma page_of_no_params: "page_of no_params = ''1''" "q_limit no_params = None"
  "category_query no_params = []"
  by (simp_all add: page_of_def no_params_def category_query_def given_def)

lemma page_of_page_two_asc: "page_of page_two_asc = ''2''" "q_limit page_two_asc = Some ''2''"
  "sortOption page_two_asc = (''price'', True)"
  "sortOption_part_000 page_two_asc = (''price'', True)"
  by (simp_all add: page_of_def page_two_asc_def sortOption_def sortOption_part_000_def
      given_def)

lemma page_of_tops_only: "page_of tops_only = ''1''" "q_limit tops_only = None"
  "q_category tops_only = Some ''tops''"
  by (simp_all add: page_of_def tops_only_def)

lemma matching_no_category: "\<not> given (q_category q) \<Longrightarrow> matching st q = products st"
  by (simp add: matching_def category_query_def matches_def)

lemma matching_three: "matching three_products two_per_page = map priced [1, 2, 3]"
  by (simp add: matching_no_category two_per_page_def given_def three_products_def)

lemma matching_ten: "matching ten_products no_params = map priced [1, 2, 3, 4, 5, 6, 7, 8, 9, 10]"
  by (simp add: matching_no_category no_params_def given_def ten_products_def)

lemma matching_ten_asc:
  "matching ten_products page_two_asc = map priced [1, 2, 3, 4, 5, 6, 7, 8, 9, 10]"
  by (simp add: matching_no_category page_two_asc_def given_def ten_products_def)

lemma matching_shuffled: "matching shuffled_products page_two_asc = map priced [3, 1, 2]"
  by (simp add: matching_no_category page_two_asc_def given_def shuffled_products_def)

lemma matching_tops: "matching two_category_store tops_only = [shirt]"
  by (simp add: matching_def category_query_def tops_only_def given_def two_category_store_def
      matches_def field_matches_def bson_def shirt_def boots_def)

lemma matching_all_categories: "matching two_category_store no_params = [shirt, boots]"
  by (simp add: matching_no_category no_params_def given_def two_category_store_def)

lemma priced_lt: "doc_lt (''price'', True) (priced a) (priced b) \<longleftrightarrow> a < b"
  by (simp add: doc_lt_def priced_def getprop_def bson_lt_def)

lemma sort_shuffled: "sort_docs (''price'', True) (map priced [3, 1, 2]) = map priced [1, 2, 3]"
  by (simp add: sort_docs_def priced_lt)

lemma sort_ten:
  "sort_docs (''price'', True) (map priced [1, 2, 3, 4, 5, 6, 7, 8, 9, 10])
     = map priced [1, 2, 3, 4, 5, 6, 7, 8, 9, 10]"
  by (simp add: sort_docs_def priced_lt)

lemma sort_one: "sort_docs opt [d] = [d]"
  by (simp add: sort_docs_def)

lemma json_priced:
  "stringify (doc_json (priced n)) =
     JO [(''_id'', JV (JOid n)), (''price'', JV (JNum (Num (of_int n))))]"
  by (simp add: doc_json_def priced_def json_scalar_def)

lemma json_shirt:
  "stringify (doc_json shirt) =
     JO [(''_id'', JV (JOid 10)), (''title'', JV (JStr ''shirt'')),
         (''price'', JV (JNum (Num 20))), (''category'', JV (JStr ''tops''))]"
  by (simp add: doc_json_def shirt_def json_scalar_def)

subsection \<open>Success or failure\<close>

lemma get_products_cases:
  "(\<exists>e. get_products st q = failure_with ''Failed to get products'' e)
   \<or> (\<exists>c prods tp cp. c_filter c = category_query q
         \<and> toArray (products st) c = Inr prods
         \<and> get_products st q =
             envelope prods (countDocuments (products st) (category_query q)) tp cp)"
proof -
  let ?H = get_products
  define pq where "pq = (find_cursor (category_query q))\<lparr>c_sort := Some (sortOption q)\<rparr>"
  define c where "c =
    (if given (q_limit q)
     then pq\<lparr>c_skip := js_mul (js_sub (toNumber (page_of q)) (Num 1))
                          (parseInt (the (q_limit q)) (Some 10)),
              c_limit := parseInt (the (q_limit q)) (Some 10)\<rparr>
     else pq)"
  define tp where "tp =
    (if given (q_limit q)
     then Math_ceil (js_div (Num (of_nat (countDocuments (products st) (category_query q))))
                      (toNumber (the (q_limit q))))
     else Num 1)"
  have f: "c_filter c = category_query q"
    by (simp add: c_def pq_def find_cursor_def)
  have r: "get_products st q =
             (case toArray (products st) c of
                Inl e \<Rightarrow> failure_with ''Failed to get products'' e
              | Inr prods \<Rightarrow>
                  envelope prods (countDocuments (products st) (category_query q)) tp
                    (parseInt (page_of q) (Some 10)))"
    by (simp add: get_products_def Let_def c_def pq_def tp_def split: sum.split)
  show ?thesis
  proof (cases "toArray (products st) c")
    case (Inl e)
    with r show ?thesis by auto
  next
    case (Inr prods)
    with r have "\<exists>tp cp. ?H st q =
        envelope prods (countDocuments (products st) (category_query q)) tp cp"
      by auto
    with f Inr show ?thesis by blast
  qed
qed

lemma get_products_part_000_cases:
  "(\<exists>e. get_products_part_000 st q = failure_with ''Failed to get products'' e)
   \<or> (\<exists>c prods tp cp. c_filter c = category_query q
         \<and> toArray (products st) c = Inr prods
         \<and> get_products_part_000 st q =
             envelope prods (countDocuments (products st) (category_query q)) tp cp)"
proof -
  let ?H = get_products_part_000
  define c where "c =
    (find_cursor (category_query q))
       \<lparr>c_sort := Some (sortOption_part_000 q),
        c_skip := js_mul (js_sub (toNumber (page_of q)) (Num 1)) (Num 9),
        c_limit := Num 9\<rparr>"
  have f: "c_filter c = category_query q"
    by (simp add: c_def find_cursor_def)
  have r: "get_products_part_000 st q =
             (case toArray (products st) c of
                Inl e \<Rightarrow> failure_with ''Failed to get products'' e
              | Inr prods \<Rightarrow>
                  envelope prods (countDocuments (products st) (category_query q))
                    (Math_ceil
                       (js_div (Num (of_nat (countDocuments (products st) (category_query q))))
                          (Num 9)))
                    (parseInt (page_of q) None))"
    by (simp add: get_products_part_000_def Let_def c_def split: sum.split)
  show ?thesis
  proof (cases "toArray (products st) c")
    case (Inl e)
    with r show ?thesis by auto
  next
    case (Inr prods)
    with r have "\<exists>tp cp. ?H st q =
        envelope prods (countDocuments (products st) (category_query q)) tp cp"
      by auto
    with f Inr show ?thesis by blast
  qed
qed

subsection \<open>The count in the envelope\<close>

text \<open>
  C2. Whenever a listing succeeds, in either file, \<open>totalProducts\<close> is the number of
  documents that match the filter built from the category, the same filter the cursor
  of the listing was opened with; neither the page nor the limit enters it. The filter
  is empty (every document matches) when no category is given, and the equality on the
  \<open>category\<close> field when one is given.
\<close>

theorem total_products_counts_the_filter:
  "(status (get_products st q) = 200 \<longrightarrow>
      body_field (get_products st q) ''totalProducts''
        = Some (JV (JNum (Num (of_nat (length (matching st q))))))
      \<and> listed_with st (category_query q) (get_products st q))
   \<and> (status (get_products_part_000 st q) = 200 \<longrightarrow>
      body_field (get_products_part_000 st q) ''totalProducts''
        = Some (JV (JNum (Num (of_nat (length (matching st q))))))
      \<and> listed_with st (category_query q) (get_products_part_000 st q))
   \<and> (\<not> given (q_category q) \<longrightarrow> category_query q = [] \<and> matching st q = products st)
   \<and> (q_category q = Some cat \<and> cat \<noteq> [] \<longrightarrow>
        category_query q = [(''category'', JStr cat)]
        \<and> matching st q = filter (\<lambda>d. map_of d ''category'' = Some (JStr cat)) (products st))"
proof (intro conjI impI)
  assume ok: "status (get_products st q) = 200"
  show "body_field (get_products st q) ''totalProducts''
          = Some (JV (JNum (Num (of_nat (length (matching st q))))))"
    using ok get_products_cases[of st q]
    by (auto simp: status_failure_with envelope_fields countDocuments_def matching_def)
  show "listed_with st (category_query q) (get_products st q)"
    using ok get_products_cases[of st q]
    by (auto simp: status_failure_with envelope_fields listed_with_def)
next
  assume ok: "status (get_products_part_000 st q) = 200"
  show "body_field (get_products_part_000 st q) ''totalProducts''
          = Some (JV (JNum (Num (of_nat (length (matching st q))))))"
    using ok get_products_part_000_cases[of st q]
    by (auto simp: status_failure_with envelope_fields countDocuments_def matching_def)
  show "listed_with st (category_query q) (get_products_part_000 st q)"
    using ok get_products_part_000_cases[of st q]
    by (auto simp: status_failure_with envelope_fields listed_with_def)
next
  assume "\<not> given (q_category q)"
  then show "category_query q = []" by (simp add: category_query_def)
  then show "matching st q = products st" by (simp add: matching_def matches_def)
next
  assume a: "q_category q = Some cat \<and> cat \<noteq> []"
  then show c: "category_query q = [(''category'', JStr cat)]"
    by (simp add: category_query_def given_def)
  show "matching st q = filter (\<lambda>d. map_of d ''category'' = Some (JStr cat)) (products st)"
    unfolding matching_def c
    by (rule filter_cong) (simp_all add: matches_def field_matches_def bson_def)
qed

text \<open>
  A catalogue with one product in each of two categories: asked for \<open>tops\<close>, both
  handlers list the shirt alone and report a count of 1; asked for nothing, the count
  is 2.
\<close>

lemma get_products_tops:
  "get_products two_category_store tops_only =
     envelope [shirt] 1 (Num 1) (Num 1)"
proof -
  have "\<not> given (q_limit tops_only)" by (simp add: page_of_tops_only given_def)
  from get_products_no_limit[OF this, of two_category_store] show ?thesis
    using parseInt_digits[of "''1''" "Some 10"]
    by (simp add: matching_tops sort_one page_of_tops_only digits_val_1)
qed

lemma get_products_part_000_tops:
  "get_products_part_000 two_category_store tops_only =
     envelope [shirt] 1 (Num 1) (Num 1)"
  using get_products_part_000_window[OF page_of_tops_only(1), of two_category_store]
    ceil_div_9[of 1]
  by (simp add: matching_tops sort_one digits_val_1 ceiling_examples)

lemma get_products_all_categories:
  "get_products two_category_store no_params =
     envelope (sort_docs (sortOption no_params) [shirt, boots]) 2 (Num 1) (Num 1)"
proof -
  have "\<not> given (q_limit no_params)" by (simp add: page_of_no_params given_def)
  from get_products_no_limit[OF this, of two_category_store] show ?thesis
    using parseInt_digits[of "''1''" "Some 10"]
    by (simp add: matching_all_categories page_of_no_params digits_val_1 numeral_2_eq_2)
qed

theorem total_products_counts_the_filter_witness:
  "body_field (get_products two_category_store tops_only) ''totalProducts''
     = Some (JV (JNum (Num 1)))
   \<and> body_field (get_products_part_000 two_category_store tops_only) ''totalProducts''
       = Some (JV (JNum (Num 1)))
   \<and> body_field (get_products two_category_store no_params) ''totalProducts''
       = Some (JV (JNum (Num 2)))
   \<and> body_field (get_products two_category_store tops_only) ''products''
       = Some (JA [JO [(''_id'', JV (JOid 10)), (''title'', JV (JStr ''shirt'')),
                       (''price'', JV (JNum (Num 20))), (''category'', JV (JStr ''tops''))]])
   \<and> body_field (get_products_part_000 two_category_store tops_only) ''products''
       = Some (JA [JO [(''_id'', JV (JOid 10)), (''title'', JV (JStr ''shirt'')),
                       (''price'', JV (JNum (Num 20))), (''category'', JV (JStr ''tops''))]])
   \<and> length (products two_category_store) = 2
   \<and> matching two_category_store tops_only = [shirt]
   \<and> matching two_category_store no_params = products two_category_store"
proof -
  have a: "status (get_products two_category_store tops_only) = 200"
    by (simp add: get_products_tops status_envelope)
  have b: "status (get_products_part_000 two_category_store tops_only) = 200"
    by (simp add: get_products_part_000_tops status_envelope)
  have c: "status (get_products two_category_store no_params) = 200"
    by (simp add: get_products_all_categories status_envelope)
  have d: "q_category tops_only = Some ''tops'' \<and> ''tops'' \<noteq> []"
    by (simp add: tops_only_def)
  have e: "\<not> given (q_category no_params)"
    by (simp add: no_params_def given_def)
  have f: "filter (\<lambda>d. map_of d ''category'' = Some (JStr ''tops'')) (products two_category_store)
             = [shirt]"
    by (simp add: two_category_store_def shirt_def boots_def)
  have n: "length (products two_category_store) = 2"
    by (simp add: two_category_store_def)
  have p: "body_field (get_products two_category_store tops_only) ''products''
       = Some (JA [JO [(''_id'', JV (JOid 10)), (''title'', JV (JStr ''shirt'')),
                       (''price'', JV (JNum (Num 20))), (''category'', JV (JStr ''tops''))]])"
    "body_field (get_products_part_000 two_category_store tops_only) ''products''
       = Some (JA [JO [(''_id'', JV (JOid 10)), (''title'', JV (JStr ''shirt'')),
                       (''price'', JV (JNum (Num 20))), (''category'', JV (JStr ''tops''))]])"
    by (simp_all add: get_products_tops get_products_part_000_tops envelope_fields json_shirt)
  note t1 = total_products_counts_the_filter[of two_category_store tops_only "''tops''"]
  note t2 = total_products_counts_the_filter[of two_category_store no_params "''tops''"]
  have m1: "matching two_category_store tops_only = [shirt]" using t1 d f by simp
  have m2: "matching two_category_store no_params = products two_category_store"
    using t2 e by blast
  have r1: "body_field (get_products two_category_store tops_only) ''totalProducts''
     = Some (JV (JNum (Num 1)))" using t1 a m1 by simp
  have r2: "body_field (get_products_part_000 two_category_store tops_only) ''totalProducts''
     = Some (JV (JNum (Num 1)))" using t1 b m1 by simp
  have r3: "body_field (get_products two_category_store no_params) ''totalProducts''
     = Some (JV (JNum (Num 2)))" using t2 c m2 n by simp
  from r1 r2 r3 p n m1 m2 show ?thesis by blast
qed

subsection \<open>Listing without a limit\<close>

text \<open>
  C1 (as amended). In \<open>src/index.js\<close>, a listing request without a \<open>limit\<close> parameter
  is answered with status 200, every document that matches the category filter, sorted,
  with no window applied, and \<open>totalPages = 1\<close>. The handler of
  \<open>src/unnamed/part_000\<close> reads no \<open>limit\<close> parameter: whatever the request says about
  the limit, it serves page \<open>P\<close> (a positive integer in decimal digits, 1 by default) as
  at most 9 documents from offset \<open>(P - 1) * 9\<close> and reports
  \<open>totalPages = ceil(totalProducts / 9)\<close>, as long as the offset and the number of
  matching documents are below \<open>2 ^ 53\<close>, where the arithmetic on doubles is exact.
\<close>

theorem get_products_without_limit:
  "(q_limit q = None \<longrightarrow>
      get_products st q =
        envelope (sort_docs (sortOption q) (matching st q)) (length (matching st q))
          (Num 1) (parseInt (page_of q) (Some 10))
      \<and> mset (sort_docs (sortOption q) (matching st q)) = mset (matching st q)
      \<and> status (get_products st q) = 200
      \<and> body_field (get_products st q) ''products''
          = Some (JA (map stringify (map doc_json (sort_docs (sortOption q) (matching st q)))))
      \<and> body_field (get_products st q) ''totalPages'' = Some (JV (JNum (Num 1))))
   \<and> (page_of q = ps \<and> ps \<noteq> [] \<and> list_all is_digit ps \<and> 0 < digits_val ps
        \<and> (digits_val ps - 1) * 9 < 2 ^ 53 \<and> int (length (matching st q)) < 2 ^ 53 \<longrightarrow>
      get_products_part_000 st q =
        envelope
          (take 9 (drop (nat ((digits_val ps - 1) * 9))
                     (sort_docs (sortOption_part_000 q) (matching st q))))
          (length (matching st q))
          (Num (of_int \<lceil>(of_nat (length (matching st q)) :: rat) / 9\<rceil>))
          (Num (of_int (digits_val ps)))
      \<and> status (get_products_part_000 st q) = 200
      \<and> body_field (get_products_part_000 st q) ''products''
          = Some (JA (map stringify (map doc_json
               (take 9 (drop (nat ((digits_val ps - 1) * 9))
                  (sort_docs (sortOption_part_000 q) (matching st q)))))))
      \<and> body_field (get_products_part_000 st q) ''totalPages''
          = Some (JV (JNum (Num (of_int \<lceil>(of_nat (length (matching st q)) :: rat) / 9\<rceil>)))))"
proof (intro conjI impI)
  assume "q_limit q = None"
  then have "\<not> given (q_limit q)" by (simp add: given_def)
  then show r: "get_products st q =
        envelope (sort_docs (sortOption q) (matching st q)) (length (matching st q))
          (Num 1) (parseInt (page_of q) (Some 10))"
    by (rule get_products_no_limit)
  show "mset (sort_docs (sortOption q) (matching st q)) = mset (matching st q)"
    by (rule mset_sort_docs)
  show "status (get_products st q) = 200"
    by (simp add: r status_envelope)
  show "body_field (get_products st q) ''products''
          = Some (JA (map stringify (map doc_json (sort_docs (sortOption q) (matching st q)))))"
    by (simp add: r envelope_fields)
  show "body_field (get_products st q) ''totalPages'' = Some (JV (JNum (Num 1)))"
    by (simp add: r envelope_fields json_scalar_def)
next
  assume a: "page_of q = ps \<and> ps \<noteq> [] \<and> list_all is_digit ps \<and> 0 < digits_val ps
        \<and> (digits_val ps - 1) * 9 < 2 ^ 53 \<and> int (length (matching st q)) < 2 ^ 53"
  then have s: "0 \<le> (digits_val ps - 1) * 9" by simp
  have c: "Math_ceil (js_div (Num (of_nat (length (matching st q)))) (Num 9))
             = Num (of_int \<lceil>(of_nat (length (matching st q)) :: rat) / 9\<rceil>)"
    using a by (intro ceil_div_9) simp
  show r: "get_products_part_000 st q =
        envelope
          (take 9 (drop (nat ((digits_val ps - 1) * 9))
                     (sort_docs (sortOption_part_000 q) (matching st q))))
          (length (matching st q))
          (Num (of_int \<lceil>(of_nat (length (matching st q)) :: rat) / 9\<rceil>))
          (Num (of_int (digits_val ps)))"
    using get_products_part_000_window[of q ps st] a s unfolding c by blast
  show "status (get_products_part_000 st q) = 200"
    by (simp add: r status_envelope)
  show "body_field (get_products_part_000 st q) ''products''
          = Some (JA (map stringify (map doc_json
               (take 9 (drop (nat ((digits_val ps - 1) * 9))
                  (sort_docs (sortOption_part_000 q) (matching st q)))))))"
    by (simp add: r envelope_fields)
  show "body_field (get_products_part_000 st q) ''totalPages''
          = Some (JV (JNum (Num (of_int \<lceil>(of_nat (length (matching st q)) :: rat) / 9\<rceil>))))"
    by (simp add: r envelope_fields json_scalar_def)
qed

theorem get_products_without_limit_witness:
  "status (get_products ten_products no_params) = 200
   \<and> length (products_of (get_products ten_products no_params)) = 10
   \<and> mset (sort_docs (sortOption no_params) (matching ten_products no_params))
       = mset (products ten_products)
   \<and> body_field (get_products ten_products no_params) ''totalPages'' = Some (JV (JNum (Num 1)))
   \<and> status (get_products_part_000 ten_products no_params) = 200
   \<and> length (products_of (get_products_part_000 ten_products no_params)) = 9
   \<and> body_field (get_products_part_000 ten_products no_params) ''totalPages''
       = Some (JV (JNum (Num 2)))"
proof -
  have n: "length (matching ten_products no_params) = 10"
    by (simp add: matching_ten)
  have m: "matching ten_products no_params = products ten_products"
    by (rule matching_no_category) (simp add: no_params_def given_def)
  have d: "page_of no_params = ''1'' \<and> ''1'' \<noteq> [] \<and> list_all is_digit ''1''
           \<and> 0 < digits_val ''1'' \<and> (digits_val ''1'' - 1) * 9 < 2 ^ 53
           \<and> int (length (matching ten_products no_params)) < 2 ^ 53"
    by (simp add: page_of_no_params digits_val_1 n)
  note t = get_products_without_limit[of no_params ten_products "''1''"]
  have e: "get_products ten_products no_params =
        envelope (sort_docs (sortOption no_params) (matching ten_products no_params))
          (length (matching ten_products no_params))
          (Num 1) (parseInt (page_of no_params) (Some 10))"
    using t page_of_no_params(2) by blast
  have f: "get_products_part_000 ten_products no_params =
        envelope
          (take 9 (drop (nat ((digits_val ''1'' - 1) * 9))
                     (sort_docs (sortOption_part_000 no_params) (matching ten_products no_params))))
          (length (matching ten_products no_params))
          (Num (of_int \<lceil>(of_nat (length (matching ten_products no_params)) :: rat) / 9\<rceil>))
          (Num (of_int (digits_val ''1'')))"
    using t d by blast
  have 1: "length (products_of (get_products ten_products no_params)) = 10"
    unfolding e length_products_of_envelope length_sort_docs by (rule n)
  have 2: "length (products_of (get_products_part_000 ten_products no_params)) = 9"
    unfolding f length_products_of_envelope by (simp add: length_sort_docs n digits_val_1)
  have "body_field (get_products_part_000 ten_products no_params) ''totalPages''
       = Some (JV (JNum (Num (of_int
           \<lceil>(of_nat (length (matching ten_products no_params)) :: rat) / 9\<rceil>))))"
    using t d by blast
  then have 3: "body_field (get_products_part_000 ten_products no_params) ''totalPages''
       = Some (JV (JNum (Num 2)))"
    by (simp add: n ceiling_examples)
  have 4: "mset (sort_docs (sortOption no_params) (matching ten_products no_params))
       = mset (products ten_products)"
    using t page_of_no_params(2) m by simp
  have 5: "status (get_products ten_products no_params) = 200"
    "body_field (get_products ten_products no_params) ''totalPages'' = Some (JV (JNum (Num 1)))"
    using t page_of_no_params(2) by blast+
  have 6: "status (get_products_part_000 ten_products no_params) = 200"
    using t d by blast
  from 1 2 3 4 5 6 show ?thesis by blast
qed

text \<open>
  The claim as stated, for every listing handler, fails on \<open>src/unnamed/part_000\<close>: with
  ten products and no parameter at all, it returns nine of them and reports two pages.
\<close>

theorem get_products_part_000_without_limit_counterexample:
  "q_limit no_params = None
   \<and> length (matching ten_products no_params) = 10
   \<and> length (products_of (get_products_part_000 ten_products no_params)) = 9
   \<and> body_field (get_products_part_000 ten_products no_params) ''totalPages''
       = Some (JV (JNum (Num 2)))"
proof -
  have n: "length (matching ten_products no_params) = 10"
    by (simp add: matching_ten)
  have r: "get_products_part_000 ten_products no_params =
       envelope (take 9 (sort_docs (sortOption_part_000 no_params)
                           (matching ten_products no_params)))
         10 (Num 2) (Num 1)"
    using get_products_part_000_window[of no_params "''1''" ten_products] ceil_div_9[of 10]
    by (simp add: page_of_no_params digits_val_1 n ceiling_examples)
  show ?thesis
    by (simp add: page_of_no_params n r length_products_of_envelope length_sort_docs
        envelope_fields json_scalar_def)
qed

subsection \<open>Listing with a limit and a page\<close>

text \<open>
  C3 (as amended). In \<open>src/index.js\<close>, with \<open>limit = L\<close> and \<open>page = P\<close> given as
  positive integers in decimal digits (the page may also be left to its default 1),
  the handler skips \<open>(P - 1) * L\<close> documents of the sorted matching set, returns the
  next \<open>L\<close> at most, and reports \<open>totalPages = ceil(totalProducts / L)\<close> and
  \<open>currentPage = P\<close>. The handler of \<open>src/unnamed/part_000\<close> does the same with the
  constant 9 in place of \<open>L\<close>, whatever \<open>limit\<close> the request carries. In both, the set
  the window is cut from is ordered by the sort option of the request. The numbers
  involved (\<open>P\<close>, \<open>L\<close>, the offset and the number of matching documents) are below
  \<open>2 ^ 53\<close>, where the arithmetic on doubles is exact.
\<close>

theorem get_products_with_limit_and_page:
  assumes "ps \<noteq> []" "list_all is_digit ps" "0 < digits_val ps"
    and "page_of q = ps"
    and "int (length (matching st q)) < 2 ^ 53"
  shows "(q_limit q = Some ls \<and> ls \<noteq> [] \<and> list_all is_digit ls \<and> 0 < digits_val ls
            \<and> digits_val ps < 2 ^ 53 \<and> digits_val ls < 2 ^ 53
            \<and> (digits_val ps - 1) * digits_val ls < 2 ^ 53 \<longrightarrow>
            get_products st q =
              envelope
                (take (nat (digits_val ls))
                   (drop (nat ((digits_val ps - 1) * digits_val ls))
                      (sort_docs (sortOption q) (matching st q))))
                (length (matching st q))
                (Num (of_int \<lceil>(of_nat (length (matching st q)) :: rat) / of_int (digits_val ls)\<rceil>))
                (Num (of_int (digits_val ps)))
            \<and> status (get_products st q) = 200
            \<and> body_field (get_products st q) ''products''
                = Some (JA (map stringify (map doc_json
                     (take (nat (digits_val ls))
                        (drop (nat ((digits_val ps - 1) * digits_val ls))
                           (sort_docs (sortOption q) (matching st q)))))))
            \<and> body_field (get_products st q) ''totalPages''
                = Some (JV (JNum (Num (of_int
                     \<lceil>(of_nat (length (matching st q)) :: rat) / of_int (digits_val ls)\<rceil>))))
            \<and> body_field (get_products st q) ''currentPage''
                = Some (JV (JNum (Num (of_int (digits_val ps)))))
            \<and> length (products_of (get_products st q)) \<le> nat (digits_val ls))
       \<and> ((digits_val ps - 1) * 9 < 2 ^ 53 \<longrightarrow>
            get_products_part_000 st q =
              envelope
                (take 9 (drop (nat ((digits_val ps - 1) * 9))
                           (sort_docs (sortOption_part_000 q) (matching st q))))
                (length (matching st q))
                (Num (of_int \<lceil>(of_nat (length (matching st q)) :: rat) / 9\<rceil>))
                (Num (of_int (digits_val ps)))
            \<and> status (get_products_part_000 st q) = 200
            \<and> body_field (get_products_part_000 st q) ''products''
                = Some (JA (map stringify (map doc_json
                     (take 9 (drop (nat ((digits_val ps - 1) * 9))
                        (sort_docs (sortOption_part_000 q) (matching st q)))))))
            \<and> body_field (get_products_part_000 st q) ''totalPages''
                = Some (JV (JNum (Num (of_int
                     \<lceil>(of_nat (length (matching st q)) :: rat) / 9\<rceil>))))
            \<and> body_field (get_products_part_000 st q) ''currentPage''
                = Some (JV (JNum (Num (of_int (digits_val ps)))))
            \<and> length (products_of (get_products_part_000 st q)) \<le> 9)
       \<and> sorted_wrt (\<lambda>a b. \<not> doc_lt (sortOption q) b a)
            (sort_docs (sortOption q) (matching st q))
       \<and> sorted_wrt (\<lambda>a b. \<not> doc_lt (sortOption_part_000 q) b a)
            (sort_docs (sortOption_part_000 q) (matching st q))"
proof (intro conjI impI)
  assume a: "q_limit q = Some ls \<and> ls \<noteq> [] \<and> list_all is_digit ls \<and> 0 < digits_val ls
            \<and> digits_val ps < 2 ^ 53 \<and> digits_val ls < 2 ^ 53
            \<and> (digits_val ps - 1) * digits_val ls < 2 ^ 53"
  then have s: "0 \<le> (digits_val ps - 1) * digits_val ls"
    using assms(3) by simp
  have c: "Math_ceil (js_div (Num (of_nat (length (matching st q))))
                        (Num (of_int (digits_val ls))))
             = Num (of_int \<lceil>(of_nat (length (matching st q)) :: rat) / of_int (digits_val ls)\<rceil>)"
    using a assms(5) by (intro ceil_div) simp_all
  have nz: "digits_val ls \<noteq> 0" using a by simp
  show r: "get_products st q =
              envelope
                (take (nat (digits_val ls))
                   (drop (nat ((digits_val ps - 1) * digits_val ls))
                      (sort_docs (sortOption q) (matching st q))))
                (length (matching st q))
                (Num (of_int \<lceil>(of_nat (length (matching st q)) :: rat) / of_int (digits_val ls)\<rceil>))
                (Num (of_int (digits_val ps)))"
    using get_products_window[of q ls ps st] a assms(1,2,4) s nz unfolding c by simp
  show "status (get_products st q) = 200"
    by (simp add: r status_envelope)
  show "body_field (get_products st q) ''products''
                = Some (JA (map stringify (map doc_json
                     (take (nat (digits_val ls))
                        (drop (nat ((digits_val ps - 1) * digits_val ls))
                           (sort_docs (sortOption q) (matching st q)))))))"
    by (simp add: r envelope_fields)
  show "body_field (get_products st q) ''totalPages''
                = Some (JV (JNum (Num (of_int
                     \<lceil>(of_nat (length (matching st q)) :: rat) / of_int (digits_val ls)\<rceil>))))"
    by (simp add: r envelope_fields json_scalar_def)
  show "body_field (get_products st q) ''currentPage''
                = Some (JV (JNum (Num (of_int (digits_val ps)))))"
    by (simp add: r envelope_fields json_scalar_def)
  show "length (products_of (get_products st q)) \<le> nat (digits_val ls)"
    unfolding r length_products_of_envelope by simp
next
  assume b: "(digits_val ps - 1) * 9 < 2 ^ 53"
  have s: "0 \<le> (digits_val ps - 1) * 9" using assms(3) by simp
  have c: "Math_ceil (js_div (Num (of_nat (length (matching st q)))) (Num 9))
             = Num (of_int \<lceil>(of_nat (length (matching st q)) :: rat) / 9\<rceil>)"
    using assms(5) by (rule ceil_div_9)
  show r: "get_products_part_000 st q =
            envelope
              (take 9 (drop (nat ((digits_val ps - 1) * 9))
                         (sort_docs (sortOption_part_000 q) (matching st q))))
              (length (matching st q))
              (Num (of_int \<lceil>(of_nat (length (matching st q)) :: rat) / 9\<rceil>))
              (Num (of_int (digits_val ps)))"
    using get_products_part_000_window[OF assms(4,1,2) s b, of st] unfolding c .
  show "status (get_products_part_000 st q) = 200"
    by (simp add: r status_envelope)
  show "body_field (get_products_part_000 st q) ''products''
                = Some (JA (map stringify (map doc_json
                     (take 9 (drop (nat ((digits_val ps - 1) * 9))
                        (sort_docs (sortOption_part_000 q) (matching st q)))))))"
    by (simp add: r envelope_fields)
  show "body_field (get_products_part_000 st q) ''totalPages''
                = Some (JV (JNum (Num (of_int
                     \<lceil>(of_nat (length (matching st q)) :: rat) / 9\<rceil>))))"
    by (simp add: r envelope_fields json_scalar_def)
  show "body_field (get_products_part_000 st q) ''currentPage''
                = Some (JV (JNum (Num (of_int (digits_val ps)))))"
    by (simp add: r envelope_fields json_scalar_def)
  show "length (products_of (get_products_part_000 st q)) \<le> 9"
    unfolding r length_products_of_envelope by simp
next
  show "sorted_wrt (\<lambda>a b. \<not> doc_lt (sortOption q) b a)
          (sort_docs (sortOption q) (matching st q))"
    by (rule sorted_sort_docs)
  show "sorted_wrt (\<lambda>a b. \<not> doc_lt (sortOption_part_000 q) b a)
          (sort_docs (sortOption_part_000 q) (matching st q))"
    by (rule sorted_sort_docs)
qed

text \<open>
  Page 2 of two per page, ascending by price: \<open>src/index.js\<close> skips two of the three
  products stored out of order and returns the dearest; \<open>src/unnamed/part_000\<close> skips
  nine of ten and returns the tenth.
\<close>

theorem get_products_with_limit_and_page_witness:
  "status (get_products shuffled_products page_two_asc) = 200
   \<and> body_field (get_products shuffled_products page_two_asc) ''products''
       = Some (JA [JO [(''_id'', JV (JOid 3)), (''price'', JV (JNum (Num 3)))]])
   \<and> body_field (get_products shuffled_products page_two_asc) ''totalPages''
       = Some (JV (JNum (Num 2)))
   \<and> body_field (get_products shuffled_products page_two_asc) ''currentPage''
       = Some (JV (JNum (Num 2)))
   \<and> status (get_products_part_000 ten_products page_two_asc) = 200
   \<and> body_field (get_products_part_000 ten_products page_two_asc) ''products''
       = Some (JA [JO [(''_id'', JV (JOid 10)), (''price'', JV (JNum (Num 10)))]])
   \<and> body_field (get_products_part_000 ten_products page_two_asc) ''totalPages''
       = Some (JV (JNum (Num 2)))
   \<and> body_field (get_products_part_000 ten_products page_two_asc) ''currentPage''
       = Some (JV (JNum (Num 2)))"
proof -
  have a: "''2'' \<noteq> []" "list_all is_digit ''2''" "0 < digits_val ''2''"
    by (simp_all add: digits_val_2)
  have n1: "int (length (matching shuffled_products page_two_asc)) < 2 ^ 53"
    by (simp add: matching_shuffled)
  have n2: "int (length (matching ten_products page_two_asc)) < 2 ^ 53"
    by (simp add: matching_ten_asc)
  have b: "q_limit page_two_asc = Some ''2'' \<and> ''2'' \<noteq> [] \<and> list_all is_digit ''2''
           \<and> 0 < digits_val ''2'' \<and> digits_val ''2'' < 2 ^ 53 \<and> digits_val ''2'' < 2 ^ 53
           \<and> (digits_val ''2'' - 1) * digits_val ''2'' < 2 ^ 53"
    by (simp add: page_of_page_two_asc digits_val_2)
  have c: "(digits_val ''2'' - 1) * 9 < 2 ^ 53"
    by (simp add: digits_val_2)
  note t1 = get_products_with_limit_and_page
              [OF a page_of_page_two_asc(1) n1, of "''2''"]
  note t2 = get_products_with_limit_and_page
              [OF a page_of_page_two_asc(1) n2, of "''2''"]
  have w1: "take (nat (digits_val ''2''))
              (drop (nat ((digits_val ''2'' - 1) * digits_val ''2''))
                 (sort_docs (sortOption page_two_asc) (matching shuffled_products page_two_asc)))
            = [priced 3]"
    unfolding page_of_page_two_asc matching_shuffled sort_shuffled
    by (simp add: digits_val_2)
  have w2: "take 9 (drop (nat ((digits_val ''2'' - 1) * 9))
              (sort_docs (sortOption_part_000 page_two_asc) (matching ten_products page_two_asc)))
            = [priced 10]"
    unfolding page_of_page_two_asc matching_ten_asc sort_ten
    by (simp add: digits_val_2)
  have 1: "status (get_products shuffled_products page_two_asc) = 200"
    "body_field (get_products shuffled_products page_two_asc) ''currentPage''
       = Some (JV (JNum (Num (of_int (digits_val ''2'')))))"
    "body_field (get_products shuffled_products page_two_asc) ''totalPages''
       = Some (JV (JNum (Num (of_int \<lceil>(of_nat (length
            (matching shuffled_products page_two_asc)) :: rat) / of_int (digits_val ''2'')\<rceil>))))"
    "body_field (get_products shuffled_products page_two_asc) ''products''
       = Some (JA (map stringify (map doc_json
           (take (nat (digits_val ''2''))
              (drop (nat ((digits_val ''2'' - 1) * digits_val ''2''))
                 (sort_docs (sortOption page_two_asc)
                    (matching shuffled_products page_two_asc)))))))"
    using t1 b by blast+
  have 2: "status (get_products_part_000 ten_products page_two_asc) = 200"
    "body_field (get_products_part_000 ten_products page_two_asc) ''currentPage''
       = Some (JV (JNum (Num (of_int (digits_val ''2'')))))"
    "body_field (get_products_part_000 ten_products page_two_asc) ''totalPages''
       = Some (JV (JNum (Num (of_int \<lceil>(of_nat (length
            (matching ten_products page_two_asc)) :: rat) / 9\<rceil>))))"
    "body_field (get_products_part_000 ten_products page_two_asc) ''products''
       = Some (JA (map stringify (map doc_json
           (take 9 (drop (nat ((digits_val ''2'' - 1) * 9))
              (sort_docs (sortOption_part_000 page_two_asc)
                 (matching ten_products page_two_asc)))))))"
    using t2 c by blast+
  show ?thesis
    using 1 2 unfolding w1 w2
    by (simp add: digits_val_2 matching_shuffled matching_ten_asc ceiling_examples json_priced)
qed

text \<open>
  The claim as stated, for every listing handler, fails on \<open>src/unnamed/part_000\<close>: with
  three products, \<open>limit = 2\<close> and \<open>page = 1\<close> it returns all three and reports one
  page, where the claim promises at most two and \<open>ceil(3 / 2) = 2\<close> pages.
\<close>

theorem get_products_part_000_ignores_limit_counterexample:
  "q_limit two_per_page = Some ''2'' \<and> q_page two_per_page = Some ''1''
   \<and> length (matching three_products two_per_page) = 3
   \<and> length (products_of (get_products_part_000 three_products two_per_page)) = 3
   \<and> body_field (get_products_part_000 three_products two_per_page) ''totalPages''
       = Some (JV (JNum (Num 1)))"
proof -
  have q: "q_page two_per_page = Some ''1''" by (simp add: two_per_page_def)
  have r: "get_products_part_000 three_products two_per_page =
     envelope (take 9 (sort_docs (sortOption_part_000 two_per_page)
                                  (matching three_products two_per_page)))
       3 (Num 1) (Num 1)"
    using get_products_part_000_window[OF page_of_two_per_page(1), of three_products]
      ceil_div_9[of 3]
    by (simp add: digits_val_1 matching_three ceiling_examples numeral_3_eq_3)
  show ?thesis
    using q
    by (simp add: page_of_two_per_page r length_products_of_envelope
        length_sort_docs matching_three envelope_fields json_scalar_def)
qed

subsection \<open>A page past the end\<close>












section \<open>Single-product lookup\<close>

text \<open>
  C7 (as amended). In the single-product lookup a malformed identifier and a well-formed
  identifier that matches no record are answered differently: the first with status 500
  and the message "Failed to get product" (the conversion throws into the handler's
  \<open>catch\<close>), the second with status 404 and the message "Product not found".
\<close>

theorem get_product_error_classes:
  "(ObjectId pid = Inl e \<longrightarrow>
      get_product st pid = failure_with ''Failed to get product'' e
      \<and> status (get_product st pid) = 500)
   \<and> (ObjectId pid = Inr oid \<and> findOne (products st) [(''_id'', JOid oid)] = None \<longrightarrow>
      get_product st pid = failure 404 ''Product not found''
      \<and> status (get_product st pid) = 404)"
  by (simp add: get_product_def failure_with_def failure_def res_json_def)

theorem get_product_error_classes_witness:
  "(get_product empty_store ''not-an-id'' = failure_with ''Failed to get product'' BSONError
      \<and> status (get_product empty_store ''not-an-id'') = 500)
   \<and> (get_product empty_store ''00000000000000000000000b'' = failure 404 ''Product not found''
      \<and> status (get_product empty_store ''00000000000000000000000b'') = 404)"
proof -
  have a: "ObjectId ''not-an-id'' = Inl BSONError"
    by (simp add: ObjectId_def)
  have b: "ObjectId ''00000000000000000000000b'' = Inr 11"
    by (simp add: ObjectId_def in_radix_def hex_val_def is_digit_def digit_val_def radix_num_def)
  have c: "findOne (products empty_store) [(''_id'', JOid 11)] = None"
    by (simp add: empty_store_def findOne_def)
  show ?thesis
    using get_product_error_classes[of "''not-an-id''" BSONError empty_store]
      get_product_error_classes[of "''00000000000000000000000b''" _ empty_store 11]
      a b c by blast
qed

text \<open>
  The claim as stated fails: on the empty catalogue the malformed identifier
  \<open>not-an-id\<close> is answered with 500, the well-formed \<open>00000000000000000000000b\<close> with
  404, and the two bodies differ.
\<close>

theorem get_product_malformed_vs_absent_counterexample:
  "status (get_product empty_store ''not-an-id'') = 500
   \<and> status (get_product empty_store ''00000000000000000000000b'') = 404
   \<and> body (get_product empty_store ''not-an-id'')
       \<noteq> body (get_product empty_store ''00000000000000000000000b'')"
  by (simp add: get_product_def ObjectId_def in_radix_def hex_val_def is_digit_def digit_val_def
      radix_num_def empty_store_def findOne_def failure_with_def failure_def res_json_def
      json_scalar_def)

section \<open>Updating a product\<close>

subsection \<open>The effect of \<open>$set\<close>\<close>

lemma map_of_apply_set:
  "map_of (apply_set sets d) k =
     (case map_of (rev sets) k of None \<Rightarrow> map_of d k | Some v \<Rightarrow> Some (bson v))"
  unfolding apply_set_def
  by (induction sets arbitrary: d)
     (auto simp: update_conv' map_add_def split: option.splits)

lemma map_of_keyed:
  "map_of (rev (map (\<lambda>k. (k, f k)) ks)) k = (if k \<in> set ks then Some (f k) else None)"
  by (induction ks) (auto simp: map_add_def split: option.splits)

lemma find_update_first:
  "List.find P xs = Some d \<Longrightarrow> P (f d) \<Longrightarrow> List.find P (update_first P f xs) = Some (f d)"
  by (induction xs) (auto split: if_splits)

lemma matches_id_apply_set:
  assumes "matches [(''_id'', JOid oid)] d" and "map_of (rev sets) ''_id'' = None"
  shows "matches [(''_id'', JOid oid)] (apply_set sets d)"
  using assms by (simp add: matches_def field_matches_def bson_def map_of_apply_set)

lemma findOne_updateOne:
  assumes "findOne coll [(''_id'', JOid oid)] = Some d"
    and "map_of (rev sets) ''_id'' = None"
  shows "updateOne coll [(''_id'', JOid oid)] sets =
           (\<lparr>matchedCount = 1, modifiedCount = (if apply_set sets d = d then 0 else 1)\<rparr>,
            update_first (matches [(''_id'', JOid oid)]) (apply_set sets) coll)"
    and "findOne (update_first (matches [(''_id'', JOid oid)]) (apply_set sets) coll)
           [(''_id'', JOid oid)] = Some (apply_set sets d)"
proof -
  show "updateOne coll [(''_id'', JOid oid)] sets =
           (\<lparr>matchedCount = 1, modifiedCount = (if apply_set sets d = d then 0 else 1)\<rparr>,
            update_first (matches [(''_id'', JOid oid)]) (apply_set sets) coll)"
    using assms(1) by (simp add: updateOne_def)
  have "matches [(''_id'', JOid oid)] d"
    using assms(1) unfolding findOne_def by (metis find_Some_iff)
  then have "matches [(''_id'', JOid oid)] (apply_set sets d)"
    using assms(2) by (rule matches_id_apply_set)
  then show "findOne (update_first (matches [(''_id'', JOid oid)]) (apply_set sets) coll)
           [(''_id'', JOid oid)] = Some (apply_set sets d)"
    using assms(1) unfolding findOne_def by (intro find_update_first)
qed

lemma id_not_product_field: "''_id'' \<notin> set product_fields"
  by (simp add: product_fields_def)

subsection \<open>The update handler\<close>

text \<open>
  C8. An update of an existing product writes all six product fields from the request
  body, whatever the body holds: afterwards each of them is stored with the value the
  body gave, and a field the body omits (read as \<open>undefined\<close>, which the driver writes
  as \<open>null\<close>) is stored as \<open>null\<close>, so its previous value is gone. This holds for the
  handler of both files.
\<close>

theorem put_product_overwrites_all_fields:
  assumes "ObjectId pid = Inr oid"
    and "findOne (products st) [(''_id'', JOid oid)] = Some d"
  shows "status (fst (put_product st pid b)) = 200
       \<and> (\<forall>k\<in>set product_fields.
            stored_field (snd (put_product st pid b)) oid k = Some (bson (getprop b k))
            \<and> (map_of b k = None \<longrightarrow>
                 stored_field (snd (put_product st pid b)) oid k = Some JNull))
       \<and> status (fst (put_product_part_000 now st pid b)) = 200
       \<and> (\<forall>k\<in>set product_fields.
            stored_field (snd (put_product_part_000 now st pid b)) oid k
              = Some (bson (getprop b k))
            \<and> (map_of b k = None \<longrightarrow>
                 stored_field (snd (put_product_part_000 now st pid b)) oid k = Some JNull))"
proof -
  let ?q = "[(''_id'', JOid oid)]"
  let ?s1 = "map (\<lambda>k. (k, getprop b k)) product_fields"
  let ?s2 = "?s1 @ [(''updatedAt'', JDate now)]"
  have n1: "map_of (rev ?s1) ''_id'' = None"
    using id_not_product_field by (simp add: map_of_keyed)
  have n2: "map_of (rev ?s2) ''_id'' = None"
    using n1 by simp
  have p1: "put_product st pid b =
      (res_json 200
         [(''success'', JV (JBool True)),
          (''message'', JV (JStr ''Product updated successfully'')),
          (''product'', update_result_json
              \<lparr>matchedCount = 1, modifiedCount = (if apply_set ?s1 d = d then 0 else 1)\<rparr>)],
       st\<lparr>products := update_first (matches ?q) (apply_set ?s1) (products st)\<rparr>)"
    using assms(1) findOne_updateOne(1)[OF assms(2) n1]
    by (simp add: put_product_def Let_def)
  have p2: "put_product_part_000 now st pid b =
      (res_json 200
         [(''success'', JV (JBool True)),
          (''message'', JV (JStr ''Product updated successfully''))],
       st\<lparr>products := update_first (matches ?q) (apply_set ?s2) (products st)\<rparr>)"
    using assms(1) findOne_updateOne(1)[OF assms(2) n2]
    by (simp add: put_product_part_000_def Let_def)
  have f1: "stored_field (snd (put_product st pid b)) oid k = map_of (apply_set ?s1 d) k" for k
    using findOne_updateOne(2)[OF assms(2) n1] by (simp add: p1 stored_field_def)
  have f2: "stored_field (snd (put_product_part_000 now st pid b)) oid k
              = map_of (apply_set ?s2 d) k" for k
    using findOne_updateOne(2)[OF assms(2) n2] by (simp add: p2 stored_field_def)
  have v1: "map_of (apply_set ?s1 d) k = Some (bson (getprop b k))"
    if "k \<in> set product_fields" for k
    using that by (simp add: map_of_apply_set map_of_keyed)
  have v2: "map_of (apply_set ?s2 d) k = Some (bson (getprop b k))"
    if "k \<in> set product_fields" for k
  proof -
    have "k \<noteq> ''updatedAt''" using that by (auto simp: product_fields_def)
    then show ?thesis using that by (simp add: map_of_apply_set map_of_keyed)
  qed
  have u: "map_of b k = None \<Longrightarrow> bson (getprop b k) = JNull" for k
    by (simp add: getprop_def bson_def)
  have s1: "status (fst (put_product st pid b)) = 200"
    by (simp add: p1 res_json_def)
  have s2: "status (fst (put_product_part_000 now st pid b)) = 200"
    by (simp add: p2 res_json_def)
  have g1: "\<forall>k\<in>set product_fields.
            stored_field (snd (put_product st pid b)) oid k = Some (bson (getprop b k))
            \<and> (map_of b k = None \<longrightarrow>
                 stored_field (snd (put_product st pid b)) oid k = Some JNull)"
    by (simp add: f1 v1 u)
  have g2: "\<forall>k\<in>set product_fields.
            stored_field (snd (put_product_part_000 now st pid b)) oid k
              = Some (bson (getprop b k))
            \<and> (map_of b k = None \<longrightarrow>
                 stored_field (snd (put_product_part_000 now st pid b)) oid k = Some JNull)"
    by (simp add: f2 v2 u)
  from s1 g1 s2 g2 show ?thesis by blast
qed

theorem put_product_overwrites_all_fields_witness:
  "status (fst (put_product one_product_store ''00000000000000000000000a'' bare_title)) = 200
   \<and> stored_field (snd (put_product one_product_store ''00000000000000000000000a'' bare_title))
        10 ''title'' = Some (JStr ''coat'')
   \<and> stored_field (snd (put_product one_product_store ''00000000000000000000000a'' bare_title))
        10 ''price'' = Some JNull
   \<and> status (fst (put_product_part_000 5 one_product_store ''00000000000000000000000a''
                    bare_title)) = 200
   \<and> stored_field (snd (put_product_part_000 5 one_product_store ''00000000000000000000000a''
                          bare_title)) 10 ''price'' = Some JNull"
proof -
  have b: "ObjectId ''00000000000000000000000a'' = Inr 10"
    by (simp add: ObjectId_def in_radix_def hex_val_def is_digit_def digit_val_def radix_num_def)
  have d: "findOne (products one_product_store) [(''_id'', JOid 10)] = Some shirt"
    by (simp add: one_product_store_def findOne_def shirt_def matches_def field_matches_def
        bson_def)
  have k: "''title'' \<in> set product_fields" "''price'' \<in> set product_fields"
    by (simp_all add: product_fields_def)
  have v: "bson (getprop bare_title ''title'') = JStr ''coat''" "map_of bare_title ''price'' = None"
    by (simp_all add: bare_title_def getprop_def bson_def)
  show ?thesis
    using put_product_overwrites_all_fields[OF b d, of bare_title 5] k v by auto
qed



section \<open>Deleting a product\<close>

text \<open>
  C9. For a well-formed identifier that matches no stored product, the delete handler
  answers 404 and leaves the store as it was. When the identifier matches a product (and
  identifiers are unique in the collection, as the store guarantees), the first delete
  answers 200 and a second delete of the same identifier answers 404 and changes
  nothing.
\<close>

theorem delete_product_not_found_idempotent:
  assumes "ObjectId pid = Inr oid"
  shows "(findOne (products st) [(''_id'', JOid oid)] = None \<longrightarrow>
            delete_product st pid = (failure 404 ''Product not found'', st))
       \<and> (findOne (products st) [(''_id'', JOid oid)] \<noteq> None
            \<and> distinct (map (\<lambda>d. getprop d ''_id'') (products st)) \<longrightarrow>
            fst (delete_product st pid) = deleted_ok
            \<and> status (fst (delete_product st pid)) = 200
            \<and> delete_product (snd (delete_product st pid)) pid
                = (failure 404 ''Product not found'', snd (delete_product st pid)))"
proof (intro conjI impI)
  assume "findOne (products st) [(''_id'', JOid oid)] = None"
  then show "delete_product st pid = (failure 404 ''Product not found'', st)"
    using assms by (simp add: delete_product_def deleteOne_def)
next
  assume a: "findOne (products st) [(''_id'', JOid oid)] \<noteq> None
            \<and> distinct (map (\<lambda>d. getprop d ''_id'') (products st))"
  let ?q = "[(''_id'', JOid oid)]"
  let ?coll = "remove_first (matches ?q) (products st)"
  have del: "delete_product st pid = (deleted_ok, st\<lparr>products := ?coll\<rparr>)"
    using assms a by (auto simp: delete_product_def deleteOne_def deleted_ok_def)
  show "fst (delete_product st pid) = deleted_ok" by (simp add: del)
  show "status (fst (delete_product st pid)) = 200"
    by (simp add: del deleted_ok_def res_json_def)
  have "List.find (matches ?q) ?coll = None"
    using a
    by (intro find_remove_first_distinct[where f = "\<lambda>d. getprop d ''_id''" and v = "JOid oid"])
       (auto simp: matches_id)
  then have gone: "findOne ?coll ?q = None" by (simp add: findOne_def)
  show "delete_product (snd (delete_product st pid)) pid
          = (failure 404 ''Product not found'', snd (delete_product st pid))"
    unfolding del snd_conv using assms gone by (simp add: delete_product_def deleteOne_def)
qed

theorem delete_product_not_found_idempotent_witness:
  "delete_product empty_store ''00000000000000000000000a''
     = (failure 404 ''Product not found'', empty_store)
   \<and> fst (delete_product one_product_store ''00000000000000000000000a'') = deleted_ok
   \<and> status (fst (delete_product one_product_store ''00000000000000000000000a'')) = 200
   \<and> delete_product (snd (delete_product one_product_store ''00000000000000000000000a''))
         ''00000000000000000000000a''
       = (failure 404 ''Product not found'',
          snd (delete_product one_product_store ''00000000000000000000000a''))"
proof -
  have b: "ObjectId ''00000000000000000000000a'' = Inr 10"
    by (simp add: ObjectId_def in_radix_def hex_val_def is_digit_def digit_val_def radix_num_def)
  have c: "findOne (products empty_store) [(''_id'', JOid 10)] = None"
    by (simp add: empty_store_def findOne_def)
  have d: "findOne (products one_product_store) [(''_id'', JOid 10)] \<noteq> None"
    by (simp add: one_product_store_def findOne_def shirt_def matches_def field_matches_def
        bson_def)
  have e: "distinct (map (\<lambda>d. getprop d ''_id'') (products one_product_store))"
    by (simp add: one_product_store_def)
  show ?thesis
    using delete_product_not_found_idempotent[OF b, of empty_store]
      delete_product_not_found_idempotent[OF b, of one_product_store] c d e
    by blast
qed

section \<open>Registration\<close>

text \<open>
  The handler reads the email for the token from \<open>newUser\<close>, which is the write result
  of \<open>insertOne\<close> and not the inserted document; the write result has no \<open>email\<close>.
\<close>

lemma insertOne_result_email: "getprop (fst (insertOne coll oid d)) ''email'' = JUndefined"
  by (simp add: insertOne_def getprop_def)

lemma register_token_has_no_email:
  assumes "token_of (fst (register e st b)) = Some tok"
  shows "map_of (claims tok) ''email'' = None"
  using assms
  by (auto simp: register_def Let_def token_of_def failure_def res_json_def body_field_def
      jwt_sign_def insertOne_def getprop_def
      split: option.splits sum.splits if_splits)

text \<open>
  C4 (the code departs from the claim). Registering \<open>ann@x.io\<close> on an empty store
  succeeds with status 201, and the token of the response is signed over the claims
  \<open>role\<close>, \<open>iat\<close> and \<open>exp\<close> only: the email of the registered user is not among them.
  The expiry is the configured one (one hour after \<open>iat\<close>).
\<close>

theorem register_token_claims_example:
  "fst (register sample_env empty_store ann_request) =
     Responded
       \<lparr>status = 201,
        body =
          JO [(''success'', JV (JBool True)),
              (''message'', JV (JStr ''User registered successfully!'')),
              (''accessToken'',
               JT \<lparr>claims = [(''role'', JStr ''user''), (''iat'', JNum (Num 1700000000)),
                              (''exp'', JNum (Num 1700003600))],
                    signing_key = ''k''\<rparr>),
              (''user'',
               JO [(''username'', JV (JStr ''ann'')), (''email'', JV (JStr ''ann@x.io'')),
                   (''role'', JV (JStr ''user''))])]\<rparr>
   \<and> token_of (fst (register sample_env empty_store ann_request)) =
       Some \<lparr>claims = [(''role'', JStr ''user''), (''iat'', JNum (Num 1700000000)),
                       (''exp'', JNum (Num 1700003600))],
             signing_key = ''k''\<rparr>"
  by (simp add: register_def Let_def sample_env_def empty_store_def ann_request_def
      findOne_def getprop_def hash_password_def insertOne_def jwt_sign_def given_def
      res_json_def token_of_def body_field_def json_scalar_def)

section \<open>Failures inside the handlers\<close>

text \<open>
  The product handlers run inside \<open>try\<close> and always answer, with one of the statuses
  200, 404 and 500.
\<close>

lemma product_handlers_status:
  "status (get_products st q) \<in> {200, 500}"
  "status (get_products_part_000 st q) \<in> {200, 500}"
  "status (get_product st pid) \<in> {200, 404, 500}"
  "status (fst (put_product st pid b)) \<in> {200, 404, 500}"
  "status (fst (put_product_part_000 now st pid b)) \<in> {200, 404, 500}"
  "status (fst (delete_product st pid)) \<in> {200, 404, 500}"
  using get_products_cases[of st q] get_products_part_000_cases[of st q]
  by (auto simp: status_envelope status_failure_with get_product_def put_product_def
      put_product_part_000_def delete_product_def failure_with_def failure_def res_json_def
      Let_def split: sum.splits option.splits prod.splits)

text \<open>
  C6 (the code departs from the claim). The registration and login handlers have no
  \<open>try\<close>. A registration whose body has no password makes the hasher reject, and the
  rejection leaves the handler: no response is written and the store is untouched. A
  login without a password for a stored email ends the same way.
\<close>

theorem register_without_password_unhandled:
  "register sample_env empty_store no_password_request
     = (Unhandled BcryptArgumentError, empty_store)"
  by (simp add: register_def Let_def sample_env_def empty_store_def no_password_request_def
      findOne_def getprop_def hash_password_def)

lemma login_without_password_unhandled:
  "login sample_env sample_store [(''email'', JStr ''ann@x.io'')] = Unhandled BcryptArgumentError"
  by (simp add: login_def Let_def sample_env_def sample_store_def ann_def
      findOne_def getprop_def compare_password_def matches_def field_matches_def bson_def)

section \<open>Login\<close>

text \<open>
  C5. A login with an email that no stored user has, and a login with a stored email and
  a password that the hash comparison rejects, get the same response: status 401 and the
  body \<open>{message: "Invalid email or password"}\<close>.
\<close>

theorem login_failures_indistinguishable:
  assumes "findOne (users st1) [(''email'', getprop b1 ''email'')] = None"
    and "findOne (users st2) [(''email'', getprop b2 ''email'')] = Some user"
    and "getprop b2 ''password'' = JStr pw"
    and "getprop user ''password'' = JStr h"
    and "\<not> bcrypt_compare e2 pw h"
  shows "login e1 st1 b1 =
           Responded \<lparr>status = 401,
                       body = JO [(''message'', JV (JStr ''Invalid email or password''))]\<rparr>
         \<and> login e2 st2 b2 = login e1 st1 b1"
  using assms
  by (simp add: login_def Let_def compare_password_def invalid_credentials_def res_json_def
      json_scalar_def)

theorem login_failures_indistinguishable_witness:
  "login sample_env sample_store [(''email'', JStr ''bob@x.io''), (''password'', JStr ''pw'')] =
     Responded \<lparr>status = 401,
                 body = JO [(''message'', JV (JStr ''Invalid email or password''))]\<rparr>
   \<and> login sample_env sample_store [(''email'', JStr ''ann@x.io''), (''password'', JStr ''no'')] =
     login sample_env sample_store [(''email'', JStr ''bob@x.io''), (''password'', JStr ''pw'')]"
  by (rule login_failures_indistinguishable
        [where user = ann and pw = "''no''" and h = "''$2b$10$wp''"])
     (simp_all add: sample_env_def sample_store_def ann_def findOne_def matches_def
        field_matches_def bson_def getprop_def)

end
